theory Spec2Isabelle
  imports Complex_Main "HOL-Library.Word"
begin

section \<open>Host-side control plane of the SOF audio DSP\<close>

text \<open>
  A shallow embedding of the pipeline-lifecycle coordinator (the suspend and resume
  paths of the SOF audio client) and of the generic IPC layer (message send, reply
  handling, chunked transfer of large control data).

  Conventions.
  \<^item> A C \<open>int\<close> return code is an \<open>int\<close>; a negative value is an error.
  \<^item> Byte counts (\<open>size_t\<close>, \<open>hdr.size\<close>) are \<open>nat\<close>: they count bytes of objects
    held in memory and stay far below the range of the machine type.
  \<^item> A kernel list is a HOL list in list order; \<open>list_for_each_entry_reverse\<close> walks
    \<open>rev\<close> of it.
  \<^item> Functions, macros and structure sizes that the sources use but do not define are
    parameters: the functions are fields of an operations record over an abstract
    device state \<open>'d\<close>, the constants are fields of a record of constants.
  \<^item> Every call that leaves the modelled code is appended to a log, with the value it
    returned, so that the order and the number of device interactions can be stated.
  \<^item> Diagnostics (\<open>dev_err\<close>, \<open>dev_dbg\<close>) have no effect on the state and are left out.
\<close>

type_synonym u8 = "8 word"
type_synonym u32 = "32 word"

subsection \<open>Error numbers\<close>

text \<open>The Linux error numbers the code returns (negated).\<close>

definition ENOMEM :: int where "ENOMEM = 12"
definition ENODEV :: int where "ENODEV = 19"
definition EINVAL :: int where "EINVAL = 22"
definition ENOBUFS :: int where "ENOBUFS = 105"
definition ETIMEDOUT :: int where "ETIMEDOUT = 110"

section \<open>Pipeline lifecycle coordinator\<close>

subsection \<open>Data model\<close>

text \<open>The widget kinds the coordinator tells apart, and a constructor for all others.\<close>

datatype snd_soc_dapm_type =
    snd_soc_dapm_scheduler
  | snd_soc_dapm_buffer
  | snd_soc_dapm_dai_in
  | snd_soc_dapm_dai_out
  | snd_soc_dapm_aif_in
  | snd_soc_dapm_aif_out
  | snd_soc_dapm_pga
  | snd_soc_dapm_other nat

datatype sof_ctrl_cmd =
    SOF_CTRL_CMD_VOLUME
  | SOF_CTRL_CMD_ENUM
  | SOF_CTRL_CMD_SWITCH
  | SOF_CTRL_CMD_BINARY
  | SOF_CTRL_CMD_other nat

datatype sof_ipc_ctrl_type =
    SOF_CTRL_TYPE_VALUE_CHAN_GET
  | SOF_CTRL_TYPE_VALUE_CHAN_SET
  | SOF_CTRL_TYPE_VALUE_COMP_GET
  | SOF_CTRL_TYPE_VALUE_COMP_SET
  | SOF_CTRL_TYPE_DATA_GET
  | SOF_CTRL_TYPE_DATA_SET
  | SOF_CTRL_TYPE_other nat

datatype sof_ipc_dai_type =
    SOF_DAI_INTEL_HDA
  | SOF_DAI_other nat

text \<open>
  Field names are those of the C structures where they are free in HOL: the header's
  \<open>size\<close> and \<open>cmd\<close> are \<open>hdr_size\<close> and \<open>hdr_cmd\<close>, a widget's \<open>id\<close> and
  \<open>private\<close> are \<open>dapm_id\<close> and \<open>private_data\<close>, a control's \<open>cmd\<close> and
  \<open>comp_id\<close> are \<open>ctl_cmd\<close> and \<open>ctl_comp_id\<close>.
\<close>

record sof_ipc_cmd_hdr =
  hdr_size :: nat
  hdr_cmd :: u32

text \<open>
  The retained construction payload behind a \<open>private\<close> pointer: an IPC structure that
  starts with a command header. For a DAI widget the pointer leads to the
  \<open>snd_sof_dai\<close> and the structure read through it is its \<open>comp_dai\<close> member; for a
  route it is the \<open>sof_ipc_pipe_comp_connect\<close>.
\<close>

record sof_ipc_blob =
  blob_hdr :: sof_ipc_cmd_hdr
  blob_body :: "u8 list"

record sof_ipc_free =
  free_hdr :: sof_ipc_cmd_hdr
  free_id :: u32

record sof_ipc_dai_config =
  config_hdr :: sof_ipc_cmd_hdr
  config_type :: sof_ipc_dai_type
  hda_link_dma_ch :: u32
  config_rest :: "u8 list"

record snd_sof_widget =
  comp_id :: int
  dapm_id :: snd_soc_dapm_type
  private_data :: "sof_ipc_blob option"
  complete :: int

record snd_sof_route =
  route_private :: "sof_ipc_blob option"

record snd_sof_dai =
  dai_name :: string
  dai_config :: "sof_ipc_dai_config option"

record snd_sof_control =
  ctl_comp_id :: int
  ctl_cmd :: sof_ctrl_cmd
  readback_offset :: nat
  control_data :: "u8 list"

text \<open>
  Constants of the firmware interface headers, which are not among the sources: the
  operation codes, the invalid DMA channel number and the sizes of the fixed IPC
  structures.
\<close>

record sof_header =
  SOF_IPC_GLB_TPLG_MSG :: u32
  SOF_IPC_TPLG_COMP_FREE :: u32
  SOF_IPC_TPLG_PIPE_FREE :: u32
  SOF_IPC_TPLG_BUFFER_FREE :: u32
  SOF_IPC_COMP_SET_VALUE :: u32
  SOF_IPC_COMP_SET_DATA :: u32
  DMA_CHAN_INVALID :: u32
  sizeof_sof_ipc_free :: nat
  sizeof_sof_ipc_reply :: nat
  sizeof_sof_ipc_comp_reply :: nat
  sizeof_sof_ipc_comp_dai :: nat
  sizeof_sof_ipc_pipe_comp_connect :: nat

subsection \<open>Calls that leave the coordinator\<close>

datatype tx_data =
    Data_free sof_ipc_free
  | Data_blob sof_ipc_blob
  | Data_dai_config sof_ipc_dai_config

text \<open>The arguments of one \<open>sof_client_tx_message\<close> call.\<close>

record tx_req =
  tx_header :: u32
  tx_msg_data :: tx_data
  tx_msg_bytes :: nat
  tx_reply_bytes :: nat

datatype ipc_call =
    Call_tx tx_req
  | Call_load_pipeline sof_ipc_blob
  | Call_complete_pipeline snd_sof_widget
  | Call_set_get_comp_data snd_sof_control u32 sof_ipc_ctrl_type sof_ctrl_cmd bool

text \<open>
  The functions the coordinator calls and the sources do not define. Each takes the
  device state and returns its return code and the next device state.
\<close>

record 'd audio_ops =
  sof_client_tx_message :: "'d \<Rightarrow> tx_req \<Rightarrow> int \<times> 'd"
  sof_load_pipeline_ipc :: "'d \<Rightarrow> sof_ipc_blob \<Rightarrow> int \<times> 'd"
  snd_sof_complete_pipeline :: "'d \<Rightarrow> snd_sof_widget \<Rightarrow> int \<times> 'd"
  snd_sof_ipc_set_get_comp_data ::
    "'d \<Rightarrow> snd_sof_control \<Rightarrow> u32 \<Rightarrow> sof_ipc_ctrl_type \<Rightarrow> sof_ctrl_cmd \<Rightarrow> bool \<Rightarrow> int \<times> 'd"

text \<open>The device as the coordinator sees it: its state and the log of calls made.\<close>

record 'd ipc_link =
  dsp :: 'd
  ipc_log :: "(ipc_call \<times> int) list"

record 'd sof_audio_dev =
  widget_list :: "snd_sof_widget list"
  route_list :: "snd_sof_route list"
  dai_list :: "snd_sof_dai list"
  kcontrol_list :: "snd_sof_control list"
  link :: "'d ipc_link"

definition logged :: "'d ipc_link \<Rightarrow> ipc_call \<Rightarrow> int \<times> 'd \<Rightarrow> int \<times> 'd ipc_link" where
  "logged lk c res = (fst res, \<lparr>dsp = snd res, ipc_log = ipc_log lk @ [(c, fst res)]\<rparr>)"

definition do_tx :: "'d audio_ops \<Rightarrow> 'd ipc_link \<Rightarrow> tx_req \<Rightarrow> int \<times> 'd ipc_link" where
  "do_tx ops lk req = logged lk (Call_tx req) (sof_client_tx_message ops (dsp lk) req)"

definition do_load_pipeline ::
  "'d audio_ops \<Rightarrow> 'd ipc_link \<Rightarrow> sof_ipc_blob \<Rightarrow> int \<times> 'd ipc_link" where
  "do_load_pipeline ops lk p =
     logged lk (Call_load_pipeline p) (sof_load_pipeline_ipc ops (dsp lk) p)"

definition do_complete_pipeline ::
  "'d audio_ops \<Rightarrow> 'd ipc_link \<Rightarrow> snd_sof_widget \<Rightarrow> int \<times> 'd ipc_link" where
  "do_complete_pipeline ops lk w =
     logged lk (Call_complete_pipeline w) (snd_sof_complete_pipeline ops (dsp lk) w)"

definition do_set_get_comp_data ::
  "'d audio_ops \<Rightarrow> 'd ipc_link \<Rightarrow> snd_sof_control \<Rightarrow> u32 \<Rightarrow> sof_ipc_ctrl_type \<Rightarrow>
   sof_ctrl_cmd \<Rightarrow> bool \<Rightarrow> int \<times> 'd ipc_link" where
  "do_set_get_comp_data ops lk sc ipc_cmd ctrl_type cmd send =
     logged lk (Call_set_get_comp_data sc ipc_cmd ctrl_type cmd send)
       (snd_sof_ipc_set_get_comp_data ops (dsp lk) sc ipc_cmd ctrl_type cmd send)"

subsection \<open>sof_destroy_pipelines\<close>

text \<open>The free message built for one widget: the switch on \<open>swidget->id\<close>.\<close>

definition free_cmd :: "sof_header \<Rightarrow> snd_soc_dapm_type \<Rightarrow> u32" where
  "free_cmd K k =
     (case k of
        snd_soc_dapm_scheduler \<Rightarrow> or (SOF_IPC_GLB_TPLG_MSG K) (SOF_IPC_TPLG_PIPE_FREE K)
      | snd_soc_dapm_buffer \<Rightarrow> or (SOF_IPC_GLB_TPLG_MSG K) (SOF_IPC_TPLG_BUFFER_FREE K)
      | _ \<Rightarrow> or (SOF_IPC_GLB_TPLG_MSG K) (SOF_IPC_TPLG_COMP_FREE K))"

definition free_req :: "sof_header \<Rightarrow> snd_sof_widget \<Rightarrow> tx_req" where
  "free_req K w =
     (let ipc_free = \<lparr>free_hdr = \<lparr>hdr_size = sizeof_sof_ipc_free K,
                                   hdr_cmd = free_cmd K (dapm_id w)\<rparr>,
                       free_id = word_of_int (comp_id w)\<rparr>
      in \<lparr>tx_header = hdr_cmd (free_hdr ipc_free), tx_msg_data = Data_free ipc_free,
          tx_msg_bytes = sizeof_sof_ipc_free K, tx_reply_bytes = sizeof_sof_ipc_reply K\<rparr>)"

text \<open>
  The loop over the widgets, given in the order it visits them. \<open>ret\<close> is the C
  variable of that name: it keeps the last return code and is what the function
  returns when the loop runs to its end.
\<close>

fun destroy_loop ::
  "sof_header \<Rightarrow> 'd audio_ops \<Rightarrow> 'd ipc_link \<Rightarrow> int \<Rightarrow> snd_sof_widget list \<Rightarrow>
   int \<times> 'd ipc_link" where
  "destroy_loop K ops lk ret [] = (ret, lk)"
| "destroy_loop K ops lk ret (w # ws) =
     (case private_data w of
        None \<Rightarrow> destroy_loop K ops lk ret ws
      | Some p \<Rightarrow>
          (case do_tx ops lk (free_req K w) of
             (r, lk') \<Rightarrow> if r < 0 then (r, lk') else destroy_loop K ops lk' r ws))"

definition sof_destroy_pipelines ::
  "sof_header \<Rightarrow> 'd audio_ops \<Rightarrow> 'd sof_audio_dev \<Rightarrow> int \<times> 'd sof_audio_dev" where
  "sof_destroy_pipelines K ops s =
     (case destroy_loop K ops (link s) 0 (rev (widget_list s)) of
        (ret, lk) \<Rightarrow> (ret, s\<lparr>link := lk\<rparr>))"

subsection \<open>sof_restore_kcontrols\<close>

text \<open>
  The switch on \<open>scontrol->cmd\<close>. \<open>ret\<close> is the C variable: the default branch
  leaves it as the previous round left it.
\<close>

definition kcontrol_set ::
  "sof_header \<Rightarrow> 'd audio_ops \<Rightarrow> 'd ipc_link \<Rightarrow> int \<Rightarrow> snd_sof_control \<Rightarrow> int \<times> 'd ipc_link" where
  "kcontrol_set K ops lk ret scontrol =
     (case ctl_cmd scontrol of
        SOF_CTRL_CMD_VOLUME \<Rightarrow>
          do_set_get_comp_data ops lk scontrol (SOF_IPC_COMP_SET_VALUE K)
            SOF_CTRL_TYPE_VALUE_CHAN_SET (ctl_cmd scontrol) True
      | SOF_CTRL_CMD_ENUM \<Rightarrow>
          do_set_get_comp_data ops lk scontrol (SOF_IPC_COMP_SET_VALUE K)
            SOF_CTRL_TYPE_VALUE_CHAN_SET (ctl_cmd scontrol) True
      | SOF_CTRL_CMD_SWITCH \<Rightarrow>
          do_set_get_comp_data ops lk scontrol (SOF_IPC_COMP_SET_VALUE K)
            SOF_CTRL_TYPE_VALUE_CHAN_SET (ctl_cmd scontrol) True
      | SOF_CTRL_CMD_BINARY \<Rightarrow>
          do_set_get_comp_data ops lk scontrol (SOF_IPC_COMP_SET_DATA K)
            SOF_CTRL_TYPE_DATA_SET (ctl_cmd scontrol) True
      | SOF_CTRL_CMD_other n \<Rightarrow> (ret, lk))"

text \<open>
  The loop over the controls, in list order. It returns the return code, the device
  and the controls with the writes made to them; a control the loop did not reach is
  returned as it was.
\<close>

fun restore_kcontrols_loop ::
  "sof_header \<Rightarrow> 'd audio_ops \<Rightarrow> 'd ipc_link \<Rightarrow> int \<Rightarrow> snd_sof_control list \<Rightarrow>
   int \<times> 'd ipc_link \<times> snd_sof_control list" where
  "restore_kcontrols_loop K ops lk ret [] = (0, lk, [])"
| "restore_kcontrols_loop K ops lk ret (sc # scs) =
     (let sc' = sc\<lparr>readback_offset := 0\<rparr> in
      case kcontrol_set K ops lk ret sc' of
        (r, lk') \<Rightarrow>
          if r < 0 then (r, lk', sc' # scs)
          else (case restore_kcontrols_loop K ops lk' r scs of
                  (r', lk'', scs') \<Rightarrow> (r', lk'', sc' # scs')))"

definition sof_restore_kcontrols ::
  "sof_header \<Rightarrow> 'd audio_ops \<Rightarrow> 'd sof_audio_dev \<Rightarrow> int \<times> 'd sof_audio_dev" where
  "sof_restore_kcontrols K ops s =
     (case restore_kcontrols_loop K ops (link s) 0 (kcontrol_list s) of
        (ret, lk, scs) \<Rightarrow> (ret, s\<lparr>link := lk, kcontrol_list := scs\<rparr>))"

subsection \<open>sof_restore_pipelines\<close>

text \<open>
  Each loop of the function is a recursive function over the entries in the order
  the loop visits them. A loop returns \<open>Some ret\<close> when it leaves the function with
  \<open>return ret\<close>, and \<open>None\<close> when it runs to its end.
\<close>

text \<open>Restore pipeline components: the switch on \<open>swidget->id\<close>.\<close>

definition restore_widget ::
  "sof_header \<Rightarrow> 'd audio_ops \<Rightarrow> 'd ipc_link \<Rightarrow> snd_sof_widget \<Rightarrow> sof_ipc_blob \<Rightarrow>
   int \<times> 'd ipc_link" where
  "restore_widget K ops lk w p =
     (let comp_dai_req =
            \<lparr>tx_header = hdr_cmd (blob_hdr p), tx_msg_data = Data_blob p,
             tx_msg_bytes = sizeof_sof_ipc_comp_dai K,
             tx_reply_bytes = sizeof_sof_ipc_comp_reply K\<rparr>
      in case dapm_id w of
           snd_soc_dapm_dai_in \<Rightarrow> do_tx ops lk comp_dai_req
         | snd_soc_dapm_dai_out \<Rightarrow> do_tx ops lk comp_dai_req
         | snd_soc_dapm_scheduler \<Rightarrow> do_load_pipeline ops lk p
         | _ \<Rightarrow>
             do_tx ops lk
               \<lparr>tx_header = hdr_cmd (blob_hdr p), tx_msg_data = Data_blob p,
                tx_msg_bytes = hdr_size (blob_hdr p),
                tx_reply_bytes = sizeof_sof_ipc_comp_reply K\<rparr>)"

fun restore_widgets_loop ::
  "sof_header \<Rightarrow> 'd audio_ops \<Rightarrow> 'd ipc_link \<Rightarrow> snd_sof_widget list \<Rightarrow>
   int option \<times> 'd ipc_link" where
  "restore_widgets_loop K ops lk [] = (None, lk)"
| "restore_widgets_loop K ops lk (w # ws) =
     (case private_data w of
        None \<Rightarrow> restore_widgets_loop K ops lk ws
      | Some p \<Rightarrow>
          (case restore_widget K ops lk w p of
             (r, lk') \<Rightarrow>
               if r < 0 then (Some r, lk') else restore_widgets_loop K ops lk' ws))"

text \<open>Restore pipeline connections.\<close>

definition connect_req :: "sof_header \<Rightarrow> sof_ipc_blob \<Rightarrow> tx_req" where
  "connect_req K connect =
     \<lparr>tx_header = hdr_cmd (blob_hdr connect), tx_msg_data = Data_blob connect,
      tx_msg_bytes = sizeof_sof_ipc_pipe_comp_connect K,
      tx_reply_bytes = sizeof_sof_ipc_reply K\<rparr>"

fun restore_routes_loop ::
  "sof_header \<Rightarrow> 'd audio_ops \<Rightarrow> 'd ipc_link \<Rightarrow> snd_sof_route list \<Rightarrow>
   int option \<times> 'd ipc_link" where
  "restore_routes_loop K ops lk [] = (None, lk)"
| "restore_routes_loop K ops lk (sroute # rs) =
     (case route_private sroute of
        None \<Rightarrow> restore_routes_loop K ops lk rs
      | Some connect \<Rightarrow>
          (case do_tx ops lk (connect_req K connect) of
             (r, lk') \<Rightarrow>
               if r < 0 then (Some r, lk') else restore_routes_loop K ops lk' rs))"

text \<open>
  Restore DAI links. The write to \<open>config->hda.link_dma_ch\<close> changes the entry of the
  list, so the loop returns the entries too, in the order it was given them.
\<close>

definition invalidate_link_dma :: "sof_header \<Rightarrow> sof_ipc_dai_config \<Rightarrow> sof_ipc_dai_config" where
  "invalidate_link_dma K config =
     (if config_type config = SOF_DAI_INTEL_HDA
      then config\<lparr>hda_link_dma_ch := DMA_CHAN_INVALID K\<rparr> else config)"

definition dai_config_req :: "sof_header \<Rightarrow> sof_ipc_dai_config \<Rightarrow> tx_req" where
  "dai_config_req K config =
     \<lparr>tx_header = hdr_cmd (config_hdr config), tx_msg_data = Data_dai_config config,
      tx_msg_bytes = hdr_size (config_hdr config),
      tx_reply_bytes = sizeof_sof_ipc_reply K\<rparr>"

fun restore_dai_links_loop ::
  "sof_header \<Rightarrow> 'd audio_ops \<Rightarrow> 'd ipc_link \<Rightarrow> snd_sof_dai list \<Rightarrow>
   int option \<times> 'd ipc_link \<times> snd_sof_dai list" where
  "restore_dai_links_loop K ops lk [] = (None, lk, [])"
| "restore_dai_links_loop K ops lk (dai # ds) =
     (case dai_config dai of
        None \<Rightarrow>
          (case restore_dai_links_loop K ops lk ds of
             (r, lk', ds') \<Rightarrow> (r, lk', dai # ds'))
      | Some config \<Rightarrow>
          (let config' = invalidate_link_dma K config;
               dai' = dai\<lparr>dai_config := Some config'\<rparr>
           in case do_tx ops lk (dai_config_req K config') of
                (r, lk') \<Rightarrow>
                  if r < 0 then (Some r, lk', dai' # ds)
                  else (case restore_dai_links_loop K ops lk' ds of
                          (r', lk'', ds') \<Rightarrow> (r', lk'', dai' # ds'))))"

text \<open>Complete pipeline: in list order, for the scheduler widgets only.\<close>

fun complete_pipelines_loop ::
  "'d audio_ops \<Rightarrow> 'd ipc_link \<Rightarrow> snd_sof_widget list \<Rightarrow> 'd ipc_link \<times> snd_sof_widget list" where
  "complete_pipelines_loop ops lk [] = (lk, [])"
| "complete_pipelines_loop ops lk (w # ws) =
     (case dapm_id w of
        snd_soc_dapm_scheduler \<Rightarrow>
          (case do_complete_pipeline ops lk w of
             (r, lk') \<Rightarrow>
               (case complete_pipelines_loop ops lk' ws of
                  (lk'', ws') \<Rightarrow> (lk'', w\<lparr>complete := r\<rparr> # ws')))
      | _ \<Rightarrow>
          (case complete_pipelines_loop ops lk ws of (lk', ws') \<Rightarrow> (lk', w # ws')))"

definition sof_restore_pipelines ::
  "sof_header \<Rightarrow> 'd audio_ops \<Rightarrow> 'd sof_audio_dev \<Rightarrow> int \<times> 'd sof_audio_dev" where
  "sof_restore_pipelines K ops s =
     (case restore_widgets_loop K ops (link s) (rev (widget_list s)) of
        (Some ret, lk1) \<Rightarrow> (ret, s\<lparr>link := lk1\<rparr>)
      | (None, lk1) \<Rightarrow>
     (case restore_routes_loop K ops lk1 (rev (route_list s)) of
        (Some ret, lk2) \<Rightarrow> (ret, s\<lparr>link := lk2\<rparr>)
      | (None, lk2) \<Rightarrow>
     (case restore_dai_links_loop K ops lk2 (rev (dai_list s)) of
        (Some ret, lk3, ds) \<Rightarrow> (ret, s\<lparr>link := lk3, dai_list := rev ds\<rparr>)
      | (None, lk3, ds) \<Rightarrow>
     (case complete_pipelines_loop ops lk3 (widget_list s) of
        (lk4, ws) \<Rightarrow>
          sof_restore_kcontrols K ops
            (s\<lparr>link := lk4, dai_list := rev ds, widget_list := ws\<rparr>)))))"

section \<open>Generic IPC layer\<close>

subsection \<open>Data model\<close>

text \<open>
  A message buffer (\<open>void *\<close>) holds one message object of type \<open>'m\<close>; a \<open>memcpy\<close>
  of a nonzero number of bytes into a buffer stores the object, and the byte count
  kept beside it (\<open>msg_size\<close>, \<open>reply_size\<close>) says how many of its bytes count.
\<close>

record 'm snd_sof_ipc_msg =
  msg_header :: u32
  msg_size :: nat
  reply_size :: nat
  reply_error :: int
  msg_data :: 'm
  reply_data :: 'm
  ipc_complete :: bool

text \<open>What the IPC layer does to the world outside it, in the order it does it.\<close>

datatype 'm ipc_event =
    Ev_set_power_state int
  | Ev_send_msg "'m snd_sof_ipc_msg" int
  | Ev_fw_exception
  | Ev_wake_up

text \<open>
  The IPC object together with the device it belongs to (\<open>ipc->sdev\<close>): the state of
  the platform and DSP, an abstract \<open>'p\<close>, the ABI version the firmware reported, and
  the events so far. The sends are sequential here, so taking and releasing
  \<open>tx_mutex\<close> and \<open>ipc_lock\<close> changes nothing and is left out.
\<close>

record ('p, 'm) snd_sof_ipc =
  disable_ipc_tx :: bool
  msg :: "'m snd_sof_ipc_msg"
  platform :: 'p
  abi_version :: nat
  events :: "'m ipc_event list"

text \<open>
  The platform operations, which the sources call and do not define.
  \<open>irq_reply\<close> is what the DSP and the platform's interrupt handler do while a sender
  waits: \<open>None\<close> when no reply arrives within \<open>ipc_timeout\<close>; \<open>Some (error, data)\<close>
  when the handler stores the reply's error code and data in the message and calls
  \<open>snd_sof_ipc_reply\<close>.
\<close>

record ('p, 'm) sof_dsp_ops =
  snd_sof_dsp_send_msg :: "'p \<Rightarrow> 'm snd_sof_ipc_msg \<Rightarrow> int \<times> 'p"
  snd_sof_dsp_set_power_state :: "'p \<Rightarrow> int \<times> 'p"
  snd_sof_handle_fw_exception :: "'p \<Rightarrow> 'p"
  irq_reply :: "'p \<Rightarrow> (int \<times> 'm) option \<times> 'p"

text \<open>Constants of the firmware interface headers used by the IPC layer.\<close>

record sof_ipc_consts =
  SOF_IPC_MSG_MAX_SIZE :: nat
  SOF_ABI_VER_3_3_0 :: nat

subsection \<open>Replies and waiting\<close>

definition snd_sof_ipc_reply ::
  "('p, 'm) snd_sof_ipc \<Rightarrow> u32 \<Rightarrow> int \<times> ('p, 'm) snd_sof_ipc" where
  "snd_sof_ipc_reply ipc msg_id =
     (if ipc_complete (msg ipc) then (- EINVAL, ipc)
      else (0, ipc\<lparr>msg := (msg ipc)\<lparr>ipc_complete := True\<rparr>,
                   events := events ipc @ [Ev_wake_up]\<rparr>))"

text \<open>
  \<open>wait_event_timeout(msg->waitq, msg->ipc_complete, timeout)\<close>: the result is 0 when
  the condition is still false after the timeout and positive otherwise.
\<close>

definition wait_event_timeout ::
  "('p, 'm) sof_dsp_ops \<Rightarrow> ('p, 'm) snd_sof_ipc \<Rightarrow> nat \<times> ('p, 'm) snd_sof_ipc" where
  "wait_event_timeout ops ipc =
     (case irq_reply ops (platform ipc) of
        (None, p) \<Rightarrow>
          (if ipc_complete (msg ipc) then 1 else 0, ipc\<lparr>platform := p\<rparr>)
      | (Some (error, data), p) \<Rightarrow>
          (case snd_sof_ipc_reply
                  (ipc\<lparr>platform := p,
                       msg := (msg ipc)\<lparr>reply_error := error, reply_data := data\<rparr>\<rparr>)
                  (msg_header (msg ipc)) of
             (r, ipc') \<Rightarrow> (if ipc_complete (msg ipc') then 1 else 0, ipc')))"

text \<open>
  \<open>tx_wait_done\<close>. The caller's reply buffer is passed in and returned: it is
  overwritten only when the reply is copied out.
\<close>

definition tx_wait_done ::
  "('p, 'm) sof_dsp_ops \<Rightarrow> ('p, 'm) snd_sof_ipc \<Rightarrow> 'm \<Rightarrow> int \<times> 'm \<times> ('p, 'm) snd_sof_ipc" where
  "tx_wait_done ops ipc reply_buf =
     (case wait_event_timeout ops ipc of
        (ret, ipc1) \<Rightarrow>
          if ret = 0 then
            (- ETIMEDOUT, reply_buf,
             ipc1\<lparr>platform := snd_sof_handle_fw_exception ops (platform ipc1),
                  events := events ipc1 @ [Ev_fw_exception]\<rparr>)
          else
            (let ret' = reply_error (msg ipc1) in
             if ret' < 0 then (ret', reply_buf, ipc1)
             else (ret',
                   if reply_size (msg ipc1) \<noteq> 0 then reply_data (msg ipc1) else reply_buf,
                   ipc1)))"

subsection \<open>Sending\<close>

definition sof_ipc_tx_message_unlocked ::
  "('p, 'm) sof_dsp_ops \<Rightarrow> ('p, 'm) snd_sof_ipc \<Rightarrow> u32 \<Rightarrow> 'm \<Rightarrow> nat \<Rightarrow> 'm \<Rightarrow> nat \<Rightarrow>
   int \<times> 'm \<times> ('p, 'm) snd_sof_ipc" where
  "sof_ipc_tx_message_unlocked ops ipc header data msg_bytes reply_buf reply_bytes =
     (if disable_ipc_tx ipc then (- ENODEV, reply_buf, ipc)
      else
        (let m = (msg ipc)\<lparr>msg_header := header, msg_size := msg_bytes,
                            reply_size := reply_bytes, reply_error := 0,
                            msg_data := (if msg_bytes \<noteq> 0 then data else msg_data (msg ipc))\<rparr>
         in case snd_sof_dsp_send_msg ops (platform ipc) m of
              (ret, p) \<Rightarrow>
                (let m' = (if ret = 0 then m\<lparr>ipc_complete := False\<rparr> else m);
                     ipc1 = ipc\<lparr>msg := m', platform := p,
                                events := events ipc @ [Ev_send_msg m ret]\<rparr>
                 in if ret < 0 then (ret, reply_buf, ipc1)
                    else if ret = 0 then tx_wait_done ops ipc1 reply_buf
                    else (ret, reply_buf, ipc1))))"

definition sof_ipc_tx_message_no_pm ::
  "sof_ipc_consts \<Rightarrow> ('p, 'm) sof_dsp_ops \<Rightarrow> ('p, 'm) snd_sof_ipc \<Rightarrow> u32 \<Rightarrow> 'm \<Rightarrow> nat \<Rightarrow>
   'm \<Rightarrow> nat \<Rightarrow> int \<times> 'm \<times> ('p, 'm) snd_sof_ipc" where
  "sof_ipc_tx_message_no_pm C ops ipc header data msg_bytes reply_buf reply_bytes =
     (if msg_bytes > SOF_IPC_MSG_MAX_SIZE C \<or> reply_bytes > SOF_IPC_MSG_MAX_SIZE C
      then (- ENOBUFS, reply_buf, ipc)
      else sof_ipc_tx_message_unlocked ops ipc header data msg_bytes reply_buf reply_bytes)"

definition sof_ipc_tx_message ::
  "sof_ipc_consts \<Rightarrow> ('p, 'm) sof_dsp_ops \<Rightarrow> ('p, 'm) snd_sof_ipc \<Rightarrow> u32 \<Rightarrow> 'm \<Rightarrow> nat \<Rightarrow>
   'm \<Rightarrow> nat \<Rightarrow> int \<times> 'm \<times> ('p, 'm) snd_sof_ipc" where
  "sof_ipc_tx_message C ops ipc header data msg_bytes reply_buf reply_bytes =
     (case snd_sof_dsp_set_power_state ops (platform ipc) of
        (ret, p) \<Rightarrow>
          (let ipc1 = ipc\<lparr>platform := p, events := events ipc @ [Ev_set_power_state ret]\<rparr>
           in if ret < 0 then (ret, reply_buf, ipc1)
              else sof_ipc_tx_message_no_pm C ops ipc1 header data msg_bytes
                     reply_buf reply_bytes))"

text \<open>\<open>snd_sof_ipc_free\<close>: \<open>sdev->ipc\<close> may be \<open>NULL\<close>, which is \<open>None\<close>.\<close>

definition snd_sof_ipc_free :: "('p, 'm) snd_sof_ipc option \<Rightarrow> ('p, 'm) snd_sof_ipc option" where
  "snd_sof_ipc_free sdev_ipc =
     (case sdev_ipc of
        None \<Rightarrow> None
      | Some ipc \<Rightarrow> Some (ipc\<lparr>disable_ipc_tx := True\<rparr>))"

subsection \<open>Large control data\<close>

text \<open>
  A control-data message: the header fields the chunker reads and writes, the rest
  of the header, and the bytes after the header, which the members \<open>chanv\<close>,
  \<open>compv\<close> and \<open>data->data\<close> all name.
\<close>

record sof_ipc_ctrl_data =
  rhdr_cmd :: u32
  rhdr_size :: nat
  ctrl_type :: sof_ipc_ctrl_type
  num_elems :: nat
  msg_index :: nat
  elems_remaining :: nat
  hdr_rest :: "u8 list"
  elems :: "u8 list"

text \<open>
  The fields \<open>src\<close> and \<open>dst\<close> of the parameters are pointers to the byte areas of
  the two messages; the model passes the messages themselves.
\<close>

record sof_ipc_ctrl_data_params =
  msg_bytes :: nat
  hdr_bytes :: nat
  pl_size :: nat
  num_msg :: nat

definition DIV_ROUND_UP :: "nat \<Rightarrow> nat \<Rightarrow> nat" where
  "DIV_ROUND_UP n d = (n + d - 1) div d"

text \<open>\<open>memcpy(dst, src, n)\<close> on byte areas that hold at least \<open>n\<close> bytes each.\<close>

definition memcpy :: "u8 list \<Rightarrow> u8 list \<Rightarrow> nat \<Rightarrow> u8 list" where
  "memcpy dst src n = take n src @ drop n dst"

text \<open>
  \<open>sof_get_ctrl_copy_params\<close>. The result is \<open>None\<close> where the C arithmetic leaves
  the model: with \<open>hdr_bytes\<close> above the maximum message size the unsigned
  subtraction wraps around, and with the two equal the division is by zero.
\<close>

definition sof_get_ctrl_copy_params ::
  "sof_ipc_consts \<Rightarrow> sof_ipc_ctrl_type \<Rightarrow> sof_ipc_ctrl_data_params \<Rightarrow>
   (int \<times> sof_ipc_ctrl_data_params) option" where
  "sof_get_ctrl_copy_params C ty sparams =
     (case ty of
        SOF_CTRL_TYPE_other n \<Rightarrow> Some (- EINVAL, sparams)
      | _ \<Rightarrow>
          if SOF_IPC_MSG_MAX_SIZE C \<le> hdr_bytes sparams then None
          else
            (let sparams' = sparams\<lparr>pl_size := SOF_IPC_MSG_MAX_SIZE C - hdr_bytes sparams\<rparr>
             in Some (0, sparams'\<lparr>num_msg :=
                                    DIV_ROUND_UP (msg_bytes sparams') (pl_size sparams')\<rparr>)))"

text \<open>
  The state of the copy loop: the caller's message \<open>cdata\<close>, the bounce buffer
  \<open>partdata\<close> and the IPC object.
\<close>

record ('p) large_ctrl_state =
  cdata :: sof_ipc_ctrl_data
  partdata :: sof_ipc_ctrl_data
  ipc_obj :: "('p, sof_ipc_ctrl_data) snd_sof_ipc"

text \<open>
  One round of the \<open>for\<close> loop of \<open>sof_ipc_set_get_large_ctrl_data\<close>, round \<open>i\<close>;
  \<open>rem_bytes\<close> is the local \<open>msg_bytes\<close> and \<open>offset\<close> the local of that name. The
  message is sent from \<open>partdata\<close> and the reply is received into it. The result is
  the return code of the send and the state after the round; the copy to the
  caller's message, in the get direction, is made only when the send did not fail.
\<close>

definition large_ctrl_round ::
  "('p, sof_ipc_ctrl_data) sof_dsp_ops \<Rightarrow> sof_ipc_ctrl_data_params \<Rightarrow> bool \<Rightarrow> nat \<Rightarrow> nat \<Rightarrow>
   nat \<Rightarrow> 'p large_ctrl_state \<Rightarrow> int \<times> 'p large_ctrl_state" where
  "large_ctrl_round ops sparams send i rem_bytes offset st =
     (let send_bytes = min rem_bytes (pl_size sparams);
          pd = (partdata st)\<lparr>num_elems := send_bytes,
                              rhdr_size := hdr_bytes sparams + send_bytes,
                              msg_index := i,
                              elems_remaining := rem_bytes - send_bytes\<rparr>;
          pd = (if send
                then pd\<lparr>elems := memcpy (elems pd) (drop offset (elems (cdata st))) send_bytes\<rparr>
                else pd)
      in case sof_ipc_tx_message_unlocked ops (ipc_obj st) (rhdr_cmd pd) pd (rhdr_size pd)
                pd (rhdr_size pd) of
           (err, pd', ipc') \<Rightarrow>
             if err < 0 then (err, st\<lparr>partdata := pd', ipc_obj := ipc'\<rparr>)
             else
               (let cd = (if \<not> send
                          then (cdata st)\<lparr>elems :=
                                 take offset (elems (cdata st)) @
                                 memcpy (drop offset (elems (cdata st))) (elems pd') send_bytes\<rparr>
                          else cdata st)
                in (err, st\<lparr>cdata := cd, partdata := pd', ipc_obj := ipc'\<rparr>)))"

text \<open>
  The loop, from round \<open>i\<close> on; \<open>err\<close> is the local of that name, which the function
  returns after the loop.
\<close>

function large_ctrl_loop ::
  "('p, sof_ipc_ctrl_data) sof_dsp_ops \<Rightarrow> sof_ipc_ctrl_data_params \<Rightarrow> bool \<Rightarrow> nat \<Rightarrow> nat \<Rightarrow>
   nat \<Rightarrow> int \<Rightarrow> 'p large_ctrl_state \<Rightarrow> int \<times> 'p large_ctrl_state" where
  "large_ctrl_loop ops sparams send i rem_bytes offset err st =
     (if i < num_msg sparams then
        (case large_ctrl_round ops sparams send i rem_bytes offset st of
           (err', st') \<Rightarrow>
             if err' < 0 then (err', st')
             else large_ctrl_loop ops sparams send (i + 1)
                    (rem_bytes - min rem_bytes (pl_size sparams))
                    (offset + pl_size sparams) err' st')
      else (err, st))"
  by pat_completeness auto
termination
  by (relation "measure (\<lambda>(ops, sparams, send, i, rem_bytes, offset, err, st). num_msg sparams - i)")
     auto

declare large_ctrl_loop.simps [simp del]

text \<open>
  \<open>sof_ipc_set_get_large_ctrl_data\<close>. \<open>kzalloc_ok\<close> says whether the allocation of
  the bounce buffer succeeds. The buffer starts as zero bytes, then receives the
  first \<open>hdr_bytes\<close> bytes of \<open>cdata\<close>, which are its header. The result holds the
  return code, the caller's message, the parameters and the IPC object.
\<close>

definition sof_ipc_set_get_large_ctrl_data ::
  "sof_ipc_consts \<Rightarrow> ('p, sof_ipc_ctrl_data) sof_dsp_ops \<Rightarrow> bool \<Rightarrow>
   ('p, sof_ipc_ctrl_data) snd_sof_ipc \<Rightarrow> sof_ipc_ctrl_data \<Rightarrow> sof_ipc_ctrl_data_params \<Rightarrow>
   bool \<Rightarrow>
   (int \<times> sof_ipc_ctrl_data \<times> sof_ipc_ctrl_data_params \<times>
    ('p, sof_ipc_ctrl_data) snd_sof_ipc) option" where
  "sof_ipc_set_get_large_ctrl_data C ops kzalloc_ok ipc cd sparams send =
     (if abi_version ipc < SOF_ABI_VER_3_3_0 C then Some (- EINVAL, cd, sparams, ipc)
      else if \<not> kzalloc_ok then Some (- ENOMEM, cd, sparams, ipc)
      else
        (case sof_get_ctrl_copy_params C (ctrl_type cd) sparams of
           None \<Rightarrow> None
         | Some (err, sparams') \<Rightarrow>
             if err < 0 then Some (err, cd, sparams', ipc)
             else
               (let pd = cd\<lparr>elems := replicate (SOF_IPC_MSG_MAX_SIZE C - hdr_bytes sparams') 0\<rparr>
                in case large_ctrl_loop ops sparams' send 0 (msg_bytes sparams') 0 err
                          \<lparr>cdata = cd, partdata = pd, ipc_obj = ipc\<rparr> of
                     (err', st) \<Rightarrow> Some (err', cdata st, sparams', ipc_obj st))))"

section \<open>Notions used to state the properties\<close>

text \<open>
  \<open>aborting_run planned entries early\<close>: the log entries \<open>entries\<close> are the first
  calls of \<open>planned\<close>, in that order; every call but the last made returned a
  non-negative code; with \<open>early = Some r\<close> the last call made returned the error
  \<open>r\<close>; with \<open>early = None\<close> every planned call was made and none failed.
\<close>

definition aborting_run :: "'c list \<Rightarrow> ('c \<times> int) list \<Rightarrow> int option \<Rightarrow> bool" where
  "aborting_run planned entries early \<longleftrightarrow>
     map fst entries = take (length entries) planned \<and>
     length entries \<le> length planned \<and>
     (\<forall>e \<in> set (butlast entries). 0 \<le> snd e) \<and>
     (case early of
        Some r \<Rightarrow> r < 0 \<and> entries \<noteq> [] \<and> snd (last entries) = r
      | None \<Rightarrow> length entries = length planned \<and> (\<forall>e \<in> set entries. 0 \<le> snd e))"

text \<open>The calls that carry a DAI configuration.\<close>

fun is_dai_config_call :: "ipc_call \<Rightarrow> bool" where
  "is_dai_config_call (Call_tx req) =
     (case tx_msg_data req of Data_dai_config c \<Rightarrow> True | _ \<Rightarrow> False)"
| "is_dai_config_call _ = False"

text \<open>
  The calls of the steps of a restore pass that follow the routes: a DAI
  configuration, a pipeline completion and a control write.
\<close>

fun is_later_step_call :: "ipc_call \<Rightarrow> bool" where
  "is_later_step_call (Call_tx req) =
     (case tx_msg_data req of Data_dai_config c \<Rightarrow> True | _ \<Rightarrow> False)"
| "is_later_step_call (Call_load_pipeline p) = False"
| "is_later_step_call (Call_complete_pipeline w) = True"
| "is_later_step_call (Call_set_get_comp_data sc ipc_cmd ty cmd send) = True"

text \<open>
  \<open>run_stops entries early\<close>: every call of \<open>entries\<close> but the last returned a
  non-negative code; with \<open>early = Some r\<close> the last call returned the error \<open>r\<close>; with
  \<open>early = None\<close> no call failed.
\<close>

definition run_stops :: "('c \<times> int) list \<Rightarrow> int option \<Rightarrow> bool" where
  "run_stops entries early \<longleftrightarrow>
     (\<forall>e \<in> set (butlast entries). 0 \<le> snd e) \<and>
     (case early of
        Some r \<Rightarrow> r < 0 \<and> entries \<noteq> [] \<and> snd (last entries) = r
      | None \<Rightarrow> (\<forall>e \<in> set entries. 0 \<le> snd e))"

text \<open>
  The replay of one control as the specification words it: volume, enum and switch
  controls use the inline set-value pair, binary controls the set-data pair, and the
  control is passed with its read cursor at zero.
\<close>

definition spec_kcontrol_replay :: "sof_header \<Rightarrow> snd_sof_control \<Rightarrow> ipc_call option" where
  "spec_kcontrol_replay K sc =
     (if ctl_cmd sc = SOF_CTRL_CMD_VOLUME \<or> ctl_cmd sc = SOF_CTRL_CMD_ENUM \<or>
         ctl_cmd sc = SOF_CTRL_CMD_SWITCH
      then Some (Call_set_get_comp_data (sc\<lparr>readback_offset := 0\<rparr>)
                   (SOF_IPC_COMP_SET_VALUE K) SOF_CTRL_TYPE_VALUE_CHAN_SET (ctl_cmd sc) True)
      else if ctl_cmd sc = SOF_CTRL_CMD_BINARY
      then Some (Call_set_get_comp_data (sc\<lparr>readback_offset := 0\<rparr>)
                   (SOF_IPC_COMP_SET_DATA K) SOF_CTRL_TYPE_DATA_SET (ctl_cmd sc) True)
      else None)"

text \<open>The messages handed to the transport, read off a list of events.\<close>

fun sent_msgs :: "'m ipc_event list \<Rightarrow> 'm snd_sof_ipc_msg list" where
  "sent_msgs [] = []"
| "sent_msgs (Ev_send_msg m r # evs) = m # sent_msgs evs"
| "sent_msgs (_ # evs) = sent_msgs evs"


definition chunk_fields :: "sof_ipc_ctrl_data snd_sof_ipc_msg \<Rightarrow> nat \<times> nat \<times> nat" where
  "chunk_fields m = (num_elems (msg_data m), msg_index (msg_data m), elems_remaining (msg_data m))"

text \<open>The payload bytes of a sent chunk: the bytes of the message after the header.\<close>

definition chunk_payload :: "nat \<Rightarrow> sof_ipc_ctrl_data snd_sof_ipc_msg \<Rightarrow> u8 list" where
  "chunk_payload hdr m = take (msg_size m - hdr) (elems (msg_data m))"


section \<open>Example inputs\<close>

text \<open>
  A set of header constants, a scripted device and a small topology, on which the
  theorems below are instantiated. The scripted device counts the calls it has
  received; the send and the control write fail with code \<open>-5\<close> when the count is
  \<open>k\<close> and succeed otherwise.
\<close>

definition K0 :: sof_header where
  "K0 = \<lparr>SOF_IPC_GLB_TPLG_MSG = 0x30000000, SOF_IPC_TPLG_COMP_FREE = 0x20000,
         SOF_IPC_TPLG_PIPE_FREE = 0x110000, SOF_IPC_TPLG_BUFFER_FREE = 0x210000,
         SOF_IPC_COMP_SET_VALUE = 0x10000, SOF_IPC_COMP_SET_DATA = 0x30000,
         DMA_CHAN_INVALID = 0xFFFFFFFF, sizeof_sof_ipc_free = 12, sizeof_sof_ipc_reply = 12,
         sizeof_sof_ipc_comp_reply = 20, sizeof_sof_ipc_comp_dai = 64,
         sizeof_sof_ipc_pipe_comp_connect = 16\<rparr>"

definition scripted_ops :: "nat \<Rightarrow> nat audio_ops" where
  "scripted_ops k =
     \<lparr>sof_client_tx_message = (\<lambda>d req. (if d = k then - 5 else 0, Suc d)),
      sof_load_pipeline_ipc = (\<lambda>d p. (0, Suc d)),
      snd_sof_complete_pipeline = (\<lambda>d w. (1, Suc d)),
      snd_sof_ipc_set_get_comp_data =
        (\<lambda>d sc ipc_cmd ty cmd send. (if d = k then - 5 else 0, Suc d))\<rparr>"

definition blob :: "u32 \<Rightarrow> u8 list \<Rightarrow> sof_ipc_blob" where
  "blob c bs = \<lparr>blob_hdr = \<lparr>hdr_size = 8 + length bs, hdr_cmd = c\<rparr>, blob_body = bs\<rparr>"

definition w_sched :: snd_sof_widget where
  "w_sched = \<lparr>comp_id = 1, dapm_id = snd_soc_dapm_scheduler,
              private_data = Some (blob 0x30100000 [1]), complete = 0\<rparr>"

definition w_buf :: snd_sof_widget where
  "w_buf = \<lparr>comp_id = 2, dapm_id = snd_soc_dapm_buffer,
            private_data = Some (blob 0x30200000 [2]), complete = 0\<rparr>"

definition w_pga :: snd_sof_widget where
  "w_pga = \<lparr>comp_id = 3, dapm_id = snd_soc_dapm_pga, private_data = None, complete = 0\<rparr>"

definition w_dai :: snd_sof_widget where
  "w_dai = \<lparr>comp_id = 4, dapm_id = snd_soc_dapm_dai_in,
            private_data = Some (blob 0x30010000 [4]), complete = 0\<rparr>"

definition rt1 :: snd_sof_route where
  "rt1 = \<lparr>route_private = Some (blob 0x30030000 [1, 2])\<rparr>"

definition rt2 :: snd_sof_route where
  "rt2 = \<lparr>route_private = Some (blob 0x30030000 [2, 3])\<rparr>"

definition rt3 :: snd_sof_route where
  "rt3 = \<lparr>route_private = Some (blob 0x30030000 [3, 4])\<rparr>"

definition config_A :: sof_ipc_dai_config where
  "config_A = \<lparr>config_hdr = \<lparr>hdr_size = 9, hdr_cmd = 0x80010000\<rparr>,
               config_type = SOF_DAI_other 0, hda_link_dma_ch = 3, config_rest = [10]\<rparr>"

definition config_B :: sof_ipc_dai_config where
  "config_B = \<lparr>config_hdr = \<lparr>hdr_size = 9, hdr_cmd = 0x80010000\<rparr>,
               config_type = SOF_DAI_INTEL_HDA, hda_link_dma_ch = 5, config_rest = [11]\<rparr>"

definition dai_A :: snd_sof_dai where
  "dai_A = \<lparr>dai_name = ''SSP0'', dai_config = Some config_A\<rparr>"

definition dai_B :: snd_sof_dai where
  "dai_B = \<lparr>dai_name = ''HDA0'', dai_config = Some config_B\<rparr>"

definition ctl_vol :: snd_sof_control where
  "ctl_vol = \<lparr>ctl_comp_id = 3, ctl_cmd = SOF_CTRL_CMD_VOLUME, readback_offset = 7,
              control_data = [1, 2]\<rparr>"

definition ctl_bin :: snd_sof_control where
  "ctl_bin = \<lparr>ctl_comp_id = 3, ctl_cmd = SOF_CTRL_CMD_BINARY, readback_offset = 9,
              control_data = [3, 4, 5]\<rparr>"

definition ctl_oth :: snd_sof_control where
  "ctl_oth = \<lparr>ctl_comp_id = 3, ctl_cmd = SOF_CTRL_CMD_other 9, readback_offset = 2,
              control_data = []\<rparr>"

definition s0 :: "nat sof_audio_dev" where
  "s0 = \<lparr>widget_list = [w_sched, w_buf, w_pga, w_dai], route_list = [rt1, rt2, rt3],
         dai_list = [dai_A, dai_B], kcontrol_list = [ctl_vol, ctl_bin, ctl_oth],
         link = \<lparr>dsp = 0, ipc_log = []\<rparr>\<rparr>"

text \<open>The example topology after a control restore that failed at the second control.\<close>

definition s0_kcontrols_failed :: "nat sof_audio_dev" where
  "s0_kcontrols_failed =
     s0\<lparr>link := \<lparr>dsp = 2, ipc_log =
               [(Call_set_get_comp_data (ctl_vol\<lparr>readback_offset := 0\<rparr>) 0x10000
                   SOF_CTRL_TYPE_VALUE_CHAN_SET SOF_CTRL_CMD_VOLUME True, 0),
                (Call_set_get_comp_data (ctl_bin\<lparr>readback_offset := 0\<rparr>) 0x30000
                   SOF_CTRL_TYPE_DATA_SET SOF_CTRL_CMD_BINARY True, - 5)]\<rparr>,
        kcontrol_list := [ctl_vol\<lparr>readback_offset := 0\<rparr>,
                          ctl_bin\<lparr>readback_offset := 0\<rparr>, ctl_oth]\<rparr>"

text \<open>
  An IPC object as \<open>snd_sof_ipc_init\<close> leaves it, with no command pending, and a
  scripted platform: it counts the messages it was handed, accepts every one, and
  answers each with status 0 and a fixed reply, except that no reply arrives while
  the count is \<open>k\<close>.
\<close>

definition cd_zero :: sof_ipc_ctrl_data where
  "cd_zero = \<lparr>rhdr_cmd = 0, rhdr_size = 0, ctrl_type = SOF_CTRL_TYPE_DATA_SET, num_elems = 0,
              msg_index = 0, elems_remaining = 0, hdr_rest = [], elems = []\<rparr>"

definition C0 :: sof_ipc_consts where
  "C0 = \<lparr>SOF_IPC_MSG_MAX_SIZE = 384, SOF_ABI_VER_3_3_0 = 0x3003000\<rparr>"

definition scripted_dsp :: "nat \<Rightarrow> (nat, sof_ipc_ctrl_data) sof_dsp_ops" where
  "scripted_dsp k =
     \<lparr>snd_sof_dsp_send_msg = (\<lambda>p m. (0, Suc p)),
      snd_sof_dsp_set_power_state = (\<lambda>p. (0, p)),
      snd_sof_handle_fw_exception = (\<lambda>p. p),
      irq_reply = (\<lambda>p. (if p = k then None else Some (0, cd_zero), p))\<rparr>"

definition ipc0 :: "(nat, sof_ipc_ctrl_data) snd_sof_ipc" where
  "ipc0 = \<lparr>disable_ipc_tx = False,
           msg = \<lparr>msg_header = 0, msg_size = 0, reply_size = 0, reply_error = 0,
                  msg_data = cd_zero, reply_data = cd_zero, ipc_complete = True\<rparr>,
           platform = 0, abi_version = 0x3012000, events = []\<rparr>"

text \<open>
  A set-direction transfer of ten bytes with a header of 380 bytes, so that four
  bytes fit in a message.
\<close>

definition cd10 :: sof_ipc_ctrl_data where
  "cd10 = cd_zero\<lparr>rhdr_cmd := 0x50030000, elems := [1, 2, 3, 4, 5, 6, 7, 8, 9, 10]\<rparr>"

definition sp10 :: sof_ipc_ctrl_data_params where
  "sp10 = \<lparr>msg_bytes = 10, hdr_bytes = 380, pl_size = 0, num_msg = 0\<rparr>"

text \<open>The IPC object with sending disabled, and with a command pending.\<close>

definition ipc0_disabled :: "(nat, sof_ipc_ctrl_data) snd_sof_ipc" where
  "ipc0_disabled = ipc0\<lparr>disable_ipc_tx := True\<rparr>"

definition ipc0_pending :: "(nat, sof_ipc_ctrl_data) snd_sof_ipc" where
  "ipc0_pending = ipc0\<lparr>msg := (msg ipc0)\<lparr>ipc_complete := False\<rparr>\<rparr>"

text \<open>A platform whose power-state request fails with code \<open>-16\<close>.\<close>

definition dsp_power_fails :: "(nat, sof_ipc_ctrl_data) sof_dsp_ops" where
  "dsp_power_fails = (scripted_dsp 99)\<lparr>snd_sof_dsp_set_power_state := (\<lambda>p. (- 16, p))\<rparr>"

text \<open>A platform that accepts every message and answers each with status 0.\<close>

definition answering_dsp :: "(nat, sof_ipc_ctrl_data) sof_dsp_ops" where
  "answering_dsp = (scripted_dsp 0)\<lparr>irq_reply := (\<lambda>p. (Some (0, cd_zero), p))\<rparr>"

text \<open>
  The log of the example restore pass in which the second route command fails, and
  the state that pass returns.
\<close>

definition log_route_failed :: "(ipc_call \<times> int) list" where
  "log_route_failed =
     [(Call_tx \<lparr>tx_header = 0x30010000, tx_msg_data = Data_blob (blob 0x30010000 [4]),
                tx_msg_bytes = 64, tx_reply_bytes = 20\<rparr>, 0),
      (Call_tx \<lparr>tx_header = 0x30200000, tx_msg_data = Data_blob (blob 0x30200000 [2]),
                tx_msg_bytes = 9, tx_reply_bytes = 20\<rparr>, 0),
      (Call_load_pipeline (blob 0x30100000 [1]), 0),
      (Call_tx (connect_req K0 (blob 0x30030000 [3, 4])), 0),
      (Call_tx (connect_req K0 (blob 0x30030000 [2, 3])), - 5)]"

definition s0_route_failed :: "nat sof_audio_dev" where
  "s0_route_failed = s0\<lparr>link := \<lparr>dsp = 5, ipc_log = log_route_failed\<rparr>\<rparr>"

section \<open>Lemmas about the coordinator\<close>

lemma aborting_run_Nil: "aborting_run [] [] None"
  by (simp add: aborting_run_def)

lemma aborting_run_fail: "r < 0 \<Longrightarrow> aborting_run (c # cs) [(c, r)] (Some r)"
  by (simp add: aborting_run_def)

lemma aborting_run_Cons:
  "0 \<le> r \<Longrightarrow> aborting_run cs es early \<Longrightarrow> aborting_run (c # cs) ((c, r) # es) early"
  by (cases early; cases es) (auto simp: aborting_run_def)

lemma aborting_run_calls:
  "aborting_run planned es early \<Longrightarrow> map fst es = take (length es) planned"
  by (simp add: aborting_run_def)

lemma aborting_run_complete:
  "aborting_run planned es None \<Longrightarrow> length es = length planned"
  by (simp add: aborting_run_def)

lemma logged_log: "logged lk c res = (r, lk') \<Longrightarrow> ipc_log lk' = ipc_log lk @ [(c, r)]"
  by (auto simp: logged_def)

lemma do_tx_log: "do_tx ops lk q = (r, lk') \<Longrightarrow> ipc_log lk' = ipc_log lk @ [(Call_tx q, r)]"
  unfolding do_tx_def by (rule logged_log)

lemma restore_widget_log:
  "restore_widget K ops lk w p = (r, lk') \<Longrightarrow>
   \<exists>c. ipc_log lk' = ipc_log lk @ [(c, r)] \<and> \<not> is_dai_config_call c"
  by (cases "dapm_id w")
     (auto simp: restore_widget_def do_tx_def do_load_pipeline_def Let_def dest!: logged_log)

lemma restore_widgets_loop_log:
  "restore_widgets_loop K ops lk ws = (early, lk') \<Longrightarrow>
   \<exists>es. ipc_log lk' = ipc_log lk @ es \<and> (\<forall>x \<in> set es. \<not> is_dai_config_call (fst x))"
proof (induction ws arbitrary: lk)
  case Nil
  then show ?case by simp
next
  case (Cons w ws)
  show ?case
  proof (cases "private_data w")
    case None
    with Cons show ?thesis by simp
  next
    case (Some p)
    obtain r1 lk1 where tx: "restore_widget K ops lk w p = (r1, lk1)" by force
    from restore_widget_log[OF tx] obtain c where
      c: "ipc_log lk1 = ipc_log lk @ [(c, r1)]" "\<not> is_dai_config_call c" by blast
    show ?thesis
    proof (cases "r1 < 0")
      case True
      with Cons.prems Some tx have "lk' = lk1" by auto
      with c show ?thesis by auto
    next
      case False
      with Cons.prems Some tx have "restore_widgets_loop K ops lk1 ws = (early, lk')" by auto
      from Cons.IH[OF this] c show ?thesis by auto
    qed
  qed
qed

lemma restore_routes_loop_run:
  "restore_routes_loop K ops lk rs = (early, lk') \<Longrightarrow>
   \<exists>es. ipc_log lk' = ipc_log lk @ es \<and>
        aborting_run (map (\<lambda>c. Call_tx (connect_req K c)) (List.map_filter route_private rs))
          es early"
proof (induction rs arbitrary: lk)
  case Nil
  then show ?case by (auto simp: aborting_run_Nil)
next
  case (Cons sroute rs)
  show ?case
  proof (cases "route_private sroute")
    case None
    with Cons show ?thesis by simp
  next
    case (Some connect)
    obtain r1 lk1 where tx: "do_tx ops lk (connect_req K connect) = (r1, lk1)" by force
    note lg = do_tx_log[OF tx]
    show ?thesis
    proof (cases "r1 < 0")
      case True
      with Cons.prems Some tx have "early = Some r1" "lk' = lk1" by auto
      with True lg Some show ?thesis
        by (auto intro!: aborting_run_fail)
    next
      case False
      with Cons.prems Some tx have "restore_routes_loop K ops lk1 rs = (early, lk')" by auto
      from Cons.IH[OF this] obtain es where
        "ipc_log lk' = ipc_log lk1 @ es"
        "aborting_run (map (\<lambda>c. Call_tx (connect_req K c)) (List.map_filter route_private rs))
           es early" by blast
      with False lg Some show ?thesis
        by (auto intro!: exI[of _ "(Call_tx (connect_req K connect), r1) # es"] aborting_run_Cons)
    qed
  qed
qed

lemma restore_dai_links_loop_run:
  "restore_dai_links_loop K ops lk ds = (early, lk', ds') \<Longrightarrow>
   \<exists>es. ipc_log lk' = ipc_log lk @ es \<and>
        aborting_run
          (map (\<lambda>c. Call_tx (dai_config_req K (invalidate_link_dma K c)))
             (List.map_filter dai_config ds))
          es early"
proof (induction ds arbitrary: lk ds')
  case Nil
  then show ?case by (auto simp: aborting_run_Nil)
next
  case (Cons dai ds)
  show ?case
  proof (cases "dai_config dai")
    case None
    with Cons.prems obtain ds1 where "restore_dai_links_loop K ops lk ds = (early, lk', ds1)"
      by (auto split: prod.splits)
    from Cons.IH[OF this] None show ?thesis by simp
  next
    case (Some config)
    let ?q = "dai_config_req K (invalidate_link_dma K config)"
    obtain r1 lk1 where tx: "do_tx ops lk ?q = (r1, lk1)" by force
    note lg = do_tx_log[OF tx]
    show ?thesis
    proof (cases "r1 < 0")
      case True
      with Cons.prems Some tx have "early = Some r1" "lk' = lk1" by (auto simp: Let_def)
      with True lg Some show ?thesis
        by (auto intro!: aborting_run_fail)
    next
      case False
      with Cons.prems Some tx obtain ds1 where
        "restore_dai_links_loop K ops lk1 ds = (early, lk', ds1)"
        by (auto simp: Let_def split: prod.splits)
      from Cons.IH[OF this] obtain es where
        "ipc_log lk' = ipc_log lk1 @ es"
        "aborting_run
          (map (\<lambda>c. Call_tx (dai_config_req K (invalidate_link_dma K c)))
             (List.map_filter dai_config ds)) es early" by blast
      with False lg Some show ?thesis
        by (auto intro!: exI[of _ "(Call_tx ?q, r1) # es"] aborting_run_Cons)
    qed
  qed
qed

lemma complete_pipelines_loop_log:
  "complete_pipelines_loop ops lk ws = (lk', ws') \<Longrightarrow>
   \<exists>es. ipc_log lk' = ipc_log lk @ es \<and> (\<forall>x \<in> set es. \<not> is_dai_config_call (fst x))"
proof (induction ws arbitrary: lk ws')
  case Nil
  then show ?case by simp
next
  case (Cons w ws)
  show ?case
  proof (cases "dapm_id w = snd_soc_dapm_scheduler")
    case True
    obtain r1 lk1 where c: "do_complete_pipeline ops lk w = (r1, lk1)" by force
    then have lg: "ipc_log lk1 = ipc_log lk @ [(Call_complete_pipeline w, r1)]"
      unfolding do_complete_pipeline_def by (rule logged_log)
    from Cons.prems True c obtain ws1 where "complete_pipelines_loop ops lk1 ws = (lk', ws1)"
      by (auto split: prod.splits)
    from Cons.IH[OF this] lg show ?thesis by auto
  next
    case False
    with Cons.prems obtain ws1 where "complete_pipelines_loop ops lk ws = (lk', ws1)"
      by (cases "dapm_id w") (auto split: prod.splits)
    from Cons.IH[OF this] show ?thesis .
  qed
qed

lemma destroy_loop_run:
  "destroy_loop K ops lk ret ws = (r, lk') \<Longrightarrow> 0 \<le> ret \<Longrightarrow>
   \<exists>es. ipc_log lk' = ipc_log lk @ es \<and>
        aborting_run (map (\<lambda>w. Call_tx (free_req K w)) (filter (\<lambda>w. private_data w \<noteq> None) ws)) es
          (if r < 0 then Some r else None) \<and>
        (0 \<le> r \<longrightarrow> r = last (ret # map snd es))"
proof (induction ws arbitrary: lk ret)
  case Nil
  then show ?case by (simp add: aborting_run_Nil)
next
  case (Cons w ws)
  show ?case
  proof (cases "private_data w")
    case None
    with Cons show ?thesis by simp
  next
    case (Some p)
    obtain r1 lk1 where tx: "do_tx ops lk (free_req K w) = (r1, lk1)" by force
    show ?thesis
    proof (cases "r1 < 0")
      case True
      with Cons.prems Some tx have "r = r1" "lk' = lk1" by auto
      with True do_tx_log[OF tx] Some show ?thesis
        by (auto intro!: exI[of _ "[(Call_tx (free_req K w), r1)]"] aborting_run_fail)
    next
      case False
      with Cons.prems Some tx have "destroy_loop K ops lk1 r1 ws = (r, lk')" by auto
      from Cons.IH[OF this] False obtain es where
        es: "ipc_log lk' = ipc_log lk1 @ es"
        "aborting_run (map (\<lambda>w. Call_tx (free_req K w)) (filter (\<lambda>w. private_data w \<noteq> None) ws)) es
          (if r < 0 then Some r else None)"
        "0 \<le> r \<longrightarrow> r = last (r1 # map snd es)" by auto
      with False do_tx_log[OF tx] Some show ?thesis
        by (auto intro!: exI[of _ "(Call_tx (free_req K w), r1) # es"] aborting_run_Cons)
    qed
  qed
qed

lemma free_req_header:
  "tx_header (free_req K w) =
     or (SOF_IPC_GLB_TPLG_MSG K)
        (if dapm_id w = snd_soc_dapm_scheduler then SOF_IPC_TPLG_PIPE_FREE K
         else if dapm_id w = snd_soc_dapm_buffer then SOF_IPC_TPLG_BUFFER_FREE K
         else SOF_IPC_TPLG_COMP_FREE K)"
  by (simp add: free_req_def free_cmd_def split: snd_soc_dapm_type.split)

lemma free_req_data:
  "tx_msg_data (free_req K w) =
     Data_free \<lparr>free_hdr = \<lparr>hdr_size = sizeof_sof_ipc_free K, hdr_cmd = tx_header (free_req K w)\<rparr>,
                free_id = word_of_int (comp_id w)\<rparr>"
  by (simp add: free_req_def)

lemma kcontrol_set_log:
  "kcontrol_set K ops lk ret (sc\<lparr>readback_offset := 0\<rparr>) = (r1, lk1) \<Longrightarrow>
   (case spec_kcontrol_replay K sc of
      Some c \<Rightarrow> ipc_log lk1 = ipc_log lk @ [(c, r1)]
    | None \<Rightarrow> r1 = ret \<and> lk1 = lk)"
  by (cases "ctl_cmd sc")
     (auto simp: kcontrol_set_def spec_kcontrol_replay_def do_set_get_comp_data_def
           dest!: logged_log)

lemma restore_kcontrols_loop_run:
  "restore_kcontrols_loop K ops lk ret scs = (r, lk', scs') \<Longrightarrow> 0 \<le> ret \<Longrightarrow>
   \<exists>n es. n \<le> length scs \<and>
     scs' = map (\<lambda>sc. sc\<lparr>readback_offset := 0\<rparr>) (take n scs) @ drop n scs \<and>
     ipc_log lk' = ipc_log lk @ es \<and>
     map fst es = List.map_filter (spec_kcontrol_replay K) (take n scs) \<and>
     (\<forall>e \<in> set (butlast es). 0 \<le> snd e) \<and>
     (r < 0 \<longrightarrow> es \<noteq> [] \<and> snd (last es) = r \<and> 0 < n \<and>
        spec_kcontrol_replay K (scs ! (n - 1)) = Some (fst (last es))) \<and>
     (0 \<le> r \<longrightarrow> r = 0 \<and> n = length scs \<and> (\<forall>e \<in> set es. 0 \<le> snd e))"
proof (induction scs arbitrary: lk ret scs')
  case Nil
  then show ?case by simp
next
  case (Cons sc scs)
  let ?sc = "sc\<lparr>readback_offset := 0\<rparr>"
  obtain r1 lk1 where step: "kcontrol_set K ops lk ret ?sc = (r1, lk1)" by force
  note lg = kcontrol_set_log[OF step]
  show ?case
  proof (cases "r1 < 0")
    case True
    with Cons.prems step have res: "r = r1" "lk' = lk1" "scs' = ?sc # scs"
      by (auto simp: Let_def)
    from True Cons.prems(2) lg obtain c where
      c: "spec_kcontrol_replay K sc = Some c" "ipc_log lk1 = ipc_log lk @ [(c, r1)]"
      by (cases "spec_kcontrol_replay K sc") auto
    show ?thesis
      by (rule exI[of _ "Suc 0"], rule exI[of _ "[(c, r1)]"])
         (use True res c in \<open>simp\<close>)
  next
    case False
    with Cons.prems step obtain scs1 where
      rec: "restore_kcontrols_loop K ops lk1 r1 scs = (r, lk', scs1)" and
      scs': "scs' = ?sc # scs1"
      by (auto simp: Let_def split: prod.splits)
    from False have "0 \<le> r1" by simp
    from Cons.IH[OF rec this] obtain n es where
      IH: "n \<le> length scs"
        "scs1 = map (\<lambda>sc. sc\<lparr>readback_offset := 0\<rparr>) (take n scs) @ drop n scs"
        "ipc_log lk' = ipc_log lk1 @ es"
        "map fst es = List.map_filter (spec_kcontrol_replay K) (take n scs)"
        "\<forall>e \<in> set (butlast es). 0 \<le> snd e"
        "r < 0 \<longrightarrow> es \<noteq> [] \<and> snd (last es) = r \<and> 0 < n \<and>
           spec_kcontrol_replay K (scs ! (n - 1)) = Some (fst (last es))"
        "0 \<le> r \<longrightarrow> r = 0 \<and> n = length scs \<and> (\<forall>e \<in> set es. 0 \<le> snd e)"
      by blast
    show ?thesis
    proof (cases "spec_kcontrol_replay K sc")
      case None
      with lg have "lk1 = lk" by simp
      with IH scs' None show ?thesis
        by (intro exI[of _ "Suc n"] exI[of _ es]) auto
    next
      case (Some c)
      with lg have "ipc_log lk1 = ipc_log lk @ [(c, r1)]" by simp
      with IH scs' Some False show ?thesis
        by (intro exI[of _ "Suc n"] exI[of _ "(c, r1) # es"]) auto
    qed
  qed
qed

lemma restore_widgets_loop_early:
  "restore_widgets_loop K ops lk ws = (Some e, lk') \<Longrightarrow> e < 0"
proof (induction ws arbitrary: lk)
  case Nil
  then show ?case by simp
next
  case (Cons w ws)
  then show ?case
    by (cases "private_data w") (auto split: prod.splits if_splits)
qed

lemma filter_dai_none:
  "\<forall>x \<in> set es. \<not> is_dai_config_call (fst x) \<Longrightarrow>
   filter is_dai_config_call (map fst es) = []"
  by (induction es) auto

lemma routes_not_dai:
  assumes "aborting_run (map (\<lambda>c. Call_tx (connect_req K c)) cs) es early"
  shows "\<forall>x \<in> set es. \<not> is_dai_config_call (fst x)"
proof
  fix x assume "x \<in> set es"
  then have "fst x \<in> set (map fst es)" by simp
  also have "map fst es = take (length es) (map (\<lambda>c. Call_tx (connect_req K c)) cs)"
    using assms by (rule aborting_run_calls)
  finally have "fst x \<in> set (map (\<lambda>c. Call_tx (connect_req K c)) cs)"
    by (rule in_set_takeD)
  then show "\<not> is_dai_config_call (fst x)" by (auto simp: connect_req_def)
qed

lemma dai_calls_all:
  assumes "aborting_run (map (\<lambda>c. Call_tx (dai_config_req K (f c))) cs) es early"
  shows "filter is_dai_config_call (map fst es) =
         take (length es) (map (\<lambda>c. Call_tx (dai_config_req K (f c))) cs)"
proof -
  have "filter is_dai_config_call (take n (map (\<lambda>c. Call_tx (dai_config_req K (f c))) cs)) =
        take n (map (\<lambda>c. Call_tx (dai_config_req K (f c))) cs)" for n
    by (rule filter_True) (auto dest!: in_set_takeD simp: dai_config_req_def)
  with aborting_run_calls[OF assms] show ?thesis by simp
qed

lemma kcontrol_calls_not_dai:
  "c \<in> set (List.map_filter (spec_kcontrol_replay K) scs) \<Longrightarrow> \<not> is_dai_config_call c"
  by (auto simp: map_filter_def spec_kcontrol_replay_def split: if_splits)

lemma sof_restore_kcontrols_log:
  assumes "sof_restore_kcontrols K ops s = (r, s')"
  shows "\<exists>es. ipc_log (link s') = ipc_log (link s) @ es \<and>
              (\<forall>x \<in> set es. \<not> is_dai_config_call (fst x)) \<and> dai_list s' = dai_list s"
proof -
  obtain lk scs where
    loop: "restore_kcontrols_loop K ops (link s) 0 (kcontrol_list s) = (r, lk, scs)" and
    s': "s' = s\<lparr>link := lk, kcontrol_list := scs\<rparr>"
    using assms by (auto simp: sof_restore_kcontrols_def split: prod.splits)
  from restore_kcontrols_loop_run[OF loop] obtain n es where
    es: "ipc_log lk = ipc_log (link s) @ es"
        "map fst es = List.map_filter (spec_kcontrol_replay K) (take n (kcontrol_list s))"
    by auto
  have "\<not> is_dai_config_call (fst x)" if "x \<in> set es" for x
  proof -
    from that have "fst x \<in> set (map fst es)" by simp
    with es(2) show ?thesis by (auto dest: kcontrol_calls_not_dai)
  qed
  with es(1) s' show ?thesis by auto
qed

subsection \<open>The shape of the log of a restore pass\<close>

lemma aborting_run_stops: "aborting_run planned es early \<Longrightarrow> run_stops es early"
  by (cases early) (auto simp: aborting_run_def run_stops_def)

lemma run_stops_Nil: "run_stops [] None"
  by (simp add: run_stops_def)

lemma run_stops_fail: "r < 0 \<Longrightarrow> run_stops [(c, r)] (Some r)"
  by (simp add: run_stops_def)

lemma run_stops_Cons: "0 \<le> r \<Longrightarrow> run_stops es early \<Longrightarrow> run_stops ((c, r) # es) early"
  by (cases early; cases es) (auto simp: run_stops_def)

lemma run_stops_append:
  "run_stops es1 None \<Longrightarrow> run_stops es2 early \<Longrightarrow> run_stops (es1 @ es2) early"
  by (cases early; cases es2) (auto simp: run_stops_def butlast_append dest: in_set_butlastD)

lemma run_stops_negative_last:
  assumes "run_stops es early" and "(c, e) \<in> set es" and "e < 0"
  shows "early = Some e \<and> es \<noteq> [] \<and> last es = (c, e)"
proof -
  from assms(2) have ne: "es \<noteq> []" by auto
  have notbl: "(c, e) \<notin> set (butlast es)"
    using assms(1,3) by (auto simp: run_stops_def)
  have "set (butlast es @ [last es]) = set es"
    by (simp only: append_butlast_last_id[OF ne])
  then have "set es = set (butlast es) \<union> {last es}" by auto
  with assms(2) notbl have l: "last es = (c, e)" by auto
  from assms(1,2,3) l obtain r where "early = Some r" "snd (last es) = r"
    by (cases early) (auto simp: run_stops_def)
  with l ne show ?thesis by simp
qed

lemma restore_widget_log2:
  "restore_widget K ops lk w p = (r, lk') \<Longrightarrow>
   \<exists>c. ipc_log lk' = ipc_log lk @ [(c, r)] \<and> \<not> is_later_step_call c"
  by (cases "dapm_id w")
     (auto simp: restore_widget_def do_tx_def do_load_pipeline_def Let_def dest!: logged_log)

lemma restore_widgets_loop_stops:
  "restore_widgets_loop K ops lk ws = (early, lk') \<Longrightarrow>
   \<exists>es. ipc_log lk' = ipc_log lk @ es \<and> (\<forall>x \<in> set es. \<not> is_later_step_call (fst x)) \<and>
        run_stops es early"
proof (induction ws arbitrary: lk)
  case Nil
  then show ?case by (simp add: run_stops_Nil)
next
  case (Cons w ws)
  show ?case
  proof (cases "private_data w")
    case None
    with Cons show ?thesis by simp
  next
    case (Some p)
    obtain r1 lk1 where tx: "restore_widget K ops lk w p = (r1, lk1)" by force
    from restore_widget_log2[OF tx] obtain c where
      c: "ipc_log lk1 = ipc_log lk @ [(c, r1)]" "\<not> is_later_step_call c" by blast
    show ?thesis
    proof (cases "r1 < 0")
      case True
      with Cons.prems Some tx have "lk' = lk1" "early = Some r1" by auto
      with c True show ?thesis
        by (intro exI[of _ "[(c, r1)]"]) (simp add: run_stops_fail)
    next
      case False
      with Cons.prems Some tx have "restore_widgets_loop K ops lk1 ws = (early, lk')" by auto
      from Cons.IH[OF this] obtain es where
        "ipc_log lk' = ipc_log lk1 @ es" "\<forall>x \<in> set es. \<not> is_later_step_call (fst x)"
        "run_stops es early" by blast
      with c False show ?thesis
        by (intro exI[of _ "(c, r1) # es"]) (simp add: run_stops_Cons)
    qed
  qed
qed

lemma routes_not_later:
  assumes "aborting_run (map (\<lambda>c. Call_tx (connect_req K c)) cs) es early"
  shows "\<forall>x \<in> set es. \<not> is_later_step_call (fst x)"
proof
  fix x assume "x \<in> set es"
  then have "fst x \<in> set (map fst es)" by simp
  also have "map fst es = take (length es) (map (\<lambda>c. Call_tx (connect_req K c)) cs)"
    using assms by (rule aborting_run_calls)
  finally have "fst x \<in> set (map (\<lambda>c. Call_tx (connect_req K c)) cs)"
    by (rule in_set_takeD)
  then show "\<not> is_later_step_call (fst x)" by (auto simp: connect_req_def)
qed

lemma dai_calls_later:
  assumes "aborting_run (map (\<lambda>c. Call_tx (dai_config_req K (f c))) cs) es early"
  shows "\<forall>x \<in> set es. is_later_step_call (fst x)"
proof
  fix x assume "x \<in> set es"
  then have "fst x \<in> set (map fst es)" by simp
  also have "map fst es = take (length es) (map (\<lambda>c. Call_tx (dai_config_req K (f c))) cs)"
    using assms by (rule aborting_run_calls)
  finally have "fst x \<in> set (map (\<lambda>c. Call_tx (dai_config_req K (f c))) cs)"
    by (rule in_set_takeD)
  then show "is_later_step_call (fst x)" by (auto simp: dai_config_req_def)
qed

lemma complete_pipelines_loop_later:
  "complete_pipelines_loop ops lk ws = (lk', ws') \<Longrightarrow>
   \<exists>es. ipc_log lk' = ipc_log lk @ es \<and> (\<forall>x \<in> set es. is_later_step_call (fst x))"
proof (induction ws arbitrary: lk ws')
  case Nil
  then show ?case by simp
next
  case (Cons w ws)
  show ?case
  proof (cases "dapm_id w = snd_soc_dapm_scheduler")
    case True
    obtain r1 lk1 where c: "do_complete_pipeline ops lk w = (r1, lk1)" by force
    then have lg: "ipc_log lk1 = ipc_log lk @ [(Call_complete_pipeline w, r1)]"
      unfolding do_complete_pipeline_def by (rule logged_log)
    from Cons.prems True c obtain ws1 where "complete_pipelines_loop ops lk1 ws = (lk', ws1)"
      by (auto split: prod.splits)
    from Cons.IH[OF this] lg show ?thesis by auto
  next
    case False
    with Cons.prems obtain ws1 where "complete_pipelines_loop ops lk ws = (lk', ws1)"
      by (cases "dapm_id w") (auto split: prod.splits)
    from Cons.IH[OF this] show ?thesis .
  qed
qed

lemma kcontrol_calls_later:
  "c \<in> set (List.map_filter (spec_kcontrol_replay K) scs) \<Longrightarrow> is_later_step_call c"
  by (auto simp: map_filter_def spec_kcontrol_replay_def split: if_splits)

lemma sof_restore_kcontrols_later:
  assumes "sof_restore_kcontrols K ops s = (r, s')"
  shows "\<exists>es. ipc_log (link s') = ipc_log (link s) @ es \<and>
              (\<forall>x \<in> set es. is_later_step_call (fst x))"
proof -
  obtain lk scs where
    loop: "restore_kcontrols_loop K ops (link s) 0 (kcontrol_list s) = (r, lk, scs)" and
    s': "s' = s\<lparr>link := lk, kcontrol_list := scs\<rparr>"
    using assms by (auto simp: sof_restore_kcontrols_def split: prod.splits)
  from restore_kcontrols_loop_run[OF loop] obtain n es where
    es: "ipc_log lk = ipc_log (link s) @ es"
        "map fst es = List.map_filter (spec_kcontrol_replay K) (take n (kcontrol_list s))"
    by auto
  have "is_later_step_call (fst x)" if "x \<in> set es" for x
  proof -
    from that have "fst x \<in> set (map fst es)" by simp
    with es(2) show ?thesis by (auto dest: kcontrol_calls_later)
  qed
  with es(1) s' show ?thesis by auto
qed

lemma sof_restore_pipelines_shape:
  assumes "sof_restore_pipelines K ops s = (r, s')"
  shows "\<exists>es rest early.
           ipc_log (link s') = ipc_log (link s) @ es @ rest \<and>
           (\<forall>x \<in> set es. \<not> is_later_step_call (fst x)) \<and>
           (\<forall>x \<in> set rest. is_later_step_call (fst x)) \<and>
           run_stops es early \<and>
           (\<forall>e. early = Some e \<longrightarrow> r = e \<and> rest = [] \<and> widget_list s' = widget_list s \<and> route_list s' = route_list s \<and>
              dai_list s' = dai_list s \<and> kcontrol_list s' = kcontrol_list s)"
proof -
  obtain ew lk1 where W: "restore_widgets_loop K ops (link s) (rev (widget_list s)) = (ew, lk1)"
    by force
  from restore_widgets_loop_stops[OF W] obtain es1 where
    es1: "ipc_log lk1 = ipc_log (link s) @ es1"
         "\<forall>x \<in> set es1. \<not> is_later_step_call (fst x)" "run_stops es1 ew"
    by blast
  show ?thesis
  proof (cases ew)
    case (Some e)
    with W assms have "r = e" "s' = s\<lparr>link := lk1\<rparr>"
      by (auto simp: sof_restore_pipelines_def)
    with es1 Some show ?thesis
      by (intro exI[of _ es1] exI[of _ "[]"] exI[of _ "Some e"]) simp
  next
    case None
    note W' = W[unfolded None]
    obtain er lk2 where R: "restore_routes_loop K ops lk1 (rev (route_list s)) = (er, lk2)"
      by force
    from restore_routes_loop_run[OF R] obtain es2 where
      es2: "ipc_log lk2 = ipc_log lk1 @ es2"
      and run2: "aborting_run (map (\<lambda>c. Call_tx (connect_req K c))
                   (List.map_filter route_private (rev (route_list s)))) es2 er"
      by blast
    note nl2 = routes_not_later[OF run2]
    from es1(3) None aborting_run_stops[OF run2] have st12: "run_stops (es1 @ es2) er"
      by (auto intro: run_stops_append)
    show ?thesis
    proof (cases er)
      case (Some e)
      with W' R assms have "r = e" "s' = s\<lparr>link := lk2\<rparr>"
        by (auto simp: sof_restore_pipelines_def)
      with es1 es2 nl2 st12 Some show ?thesis
        by (intro exI[of _ "es1 @ es2"] exI[of _ "[]"] exI[of _ "Some e"]) auto
    next
      case None
      note R' = R[unfolded None]
      obtain ed lk3 ds where
        D: "restore_dai_links_loop K ops lk2 (rev (dai_list s)) = (ed, lk3, ds)"
        by (metis prod_cases3)
      from restore_dai_links_loop_run[OF D] obtain es3 where
        es3: "ipc_log lk3 = ipc_log lk2 @ es3"
        and run3: "aborting_run
                     (map (\<lambda>c. Call_tx (dai_config_req K (invalidate_link_dma K c)))
                        (List.map_filter dai_config (rev (dai_list s)))) es3 ed"
        by blast
      note l3 = dai_calls_later[OF run3]
      show ?thesis
      proof (cases ed)
        case (Some e)
        with W' R' D assms have "ipc_log (link s') = ipc_log lk3"
          by (auto simp: sof_restore_pipelines_def)
        with es1 es2 es3 nl2 l3 st12 \<open>er = None\<close> show ?thesis
          by (intro exI[of _ "es1 @ es2"] exI[of _ es3] exI[of _ None]) auto
      next
        case None
        note D' = D[unfolded None]
        obtain lk4 ws where C: "complete_pipelines_loop ops lk3 (widget_list s) = (lk4, ws)"
          by force
        from complete_pipelines_loop_later[OF C] obtain es4 where
          es4: "ipc_log lk4 = ipc_log lk3 @ es4"
               "\<forall>x \<in> set es4. is_later_step_call (fst x)"
          by blast
        from W' R' D' C assms have
          Kc: "sof_restore_kcontrols K ops
                 (s\<lparr>link := lk4, dai_list := rev ds, widget_list := ws\<rparr>) = (r, s')"
          by (simp add: sof_restore_pipelines_def)
        from sof_restore_kcontrols_later[OF Kc] obtain es5 where
          es5: "ipc_log (link s') = ipc_log lk4 @ es5"
               "\<forall>x \<in> set es5. is_later_step_call (fst x)"
          by auto
        from es1 es2 es3 es4 es5 nl2 l3 st12 \<open>er = None\<close> show ?thesis
          by (intro exI[of _ "es1 @ es2"] exI[of _ "es3 @ es4 @ es5"] exI[of _ None]) auto
      qed
    qed
  qed
qed

section \<open>Properties of the coordinator\<close>

lemmas ex_defs = K0_def scripted_ops_def blob_def w_sched_def w_buf_def w_pga_def w_dai_def
  rt1_def rt2_def rt3_def config_A_def config_B_def dai_A_def dai_B_def
  ctl_vol_def ctl_bin_def ctl_oth_def s0_def

lemmas run_defs = sof_destroy_pipelines_def sof_restore_pipelines_def sof_restore_kcontrols_def
  do_tx_def do_load_pipeline_def do_complete_pipeline_def do_set_get_comp_data_def logged_def
  restore_widget_def kcontrol_set_def invalidate_link_dma_def Let_def

subsection \<open>Destroy pass\<close>

text \<open>
  Claim C2. A destroy pass walks the widgets in reverse creation order and sends one
  free command for each widget that has a retained construction payload, and none for
  the others: the new log entries are the first calls of that planned list. The
  operation code of each command is the topology class combined with pipeline-free
  for a scheduler widget, buffer-free for a buffer widget and component-free for every
  other kind. Only the last command sent can have failed; when one fails, the pass
  stops there and returns that command's error; otherwise every planned command is
  sent and the pass returns the last return code (0 when nothing was sent). The
  host-side lists are left as they were.
\<close>

theorem sof_destroy_pipelines_reverse_free:
  assumes "sof_destroy_pipelines K ops s = (r, s')"
  shows "\<exists>es. ipc_log (link s') = ipc_log (link s) @ es \<and>
           aborting_run
             (map (\<lambda>w. Call_tx (free_req K w))
                (filter (\<lambda>w. private_data w \<noteq> None) (rev (widget_list s))))
             es (if r < 0 then Some r else None) \<and>
           (0 \<le> r \<longrightarrow> r = last (0 # map snd es)) \<and>
           (\<forall>w. tx_header (free_req K w) =
                  or (SOF_IPC_GLB_TPLG_MSG K)
                     (if dapm_id w = snd_soc_dapm_scheduler then SOF_IPC_TPLG_PIPE_FREE K
                      else if dapm_id w = snd_soc_dapm_buffer then SOF_IPC_TPLG_BUFFER_FREE K
                      else SOF_IPC_TPLG_COMP_FREE K) \<and>
                tx_msg_data (free_req K w) =
                  Data_free \<lparr>free_hdr = \<lparr>hdr_size = sizeof_sof_ipc_free K,
                                          hdr_cmd = tx_header (free_req K w)\<rparr>,
                             free_id = word_of_int (comp_id w)\<rparr>) \<and>
           s' = s\<lparr>link := link s'\<rparr>"
proof -
  obtain lk where loop: "destroy_loop K ops (link s) 0 (rev (widget_list s)) = (r, lk)"
    and s': "s' = s\<lparr>link := lk\<rparr>"
    using assms by (auto simp: sof_destroy_pipelines_def split: prod.splits)
  from destroy_loop_run[OF loop] obtain es where
    "ipc_log lk = ipc_log (link s) @ es"
    "aborting_run
       (map (\<lambda>w. Call_tx (free_req K w))
          (filter (\<lambda>w. private_data w \<noteq> None) (rev (widget_list s))))
       es (if r < 0 then Some r else None)"
    "0 \<le> r \<longrightarrow> r = last (0 # map snd es)" by auto
  with s' show ?thesis
    using free_req_header free_req_data by (intro exI[of _ es]) simp
qed

text \<open>
  Claim C2 on the example topology, with a device that fails the second command: the
  DAI widget is freed, the widget without payload is skipped, the free of the buffer
  fails with \<open>-5\<close>, and the scheduler widget is not reached.
\<close>

theorem sof_destroy_pipelines_reverse_free_witness:
  "sof_destroy_pipelines K0 (scripted_ops 1) s0 =
     (- 5, s0\<lparr>link := \<lparr>dsp = 2, ipc_log = [(Call_tx (free_req K0 w_dai), 0),
                                             (Call_tx (free_req K0 w_buf), - 5)]\<rparr>\<rparr>) \<and>
   (\<exists>es. [(Call_tx (free_req K0 w_dai), 0), (Call_tx (free_req K0 w_buf), - 5)] = es \<and>
      aborting_run [Call_tx (free_req K0 w_dai), Call_tx (free_req K0 w_buf),
                    Call_tx (free_req K0 w_sched)] es (Some (- 5)))"
proof -
  have run: "sof_destroy_pipelines K0 (scripted_ops 1) s0 =
     (- 5, s0\<lparr>link := \<lparr>dsp = 2, ipc_log = [(Call_tx (free_req K0 w_dai), 0),
                                             (Call_tx (free_req K0 w_buf), - 5)]\<rparr>\<rparr>)"
    by (simp add: sof_destroy_pipelines_def do_tx_def logged_def scripted_ops_def s0_def
          w_sched_def w_buf_def w_pga_def w_dai_def)
  have ws: "filter (\<lambda>w. private_data w \<noteq> None) (rev (widget_list s0)) = [w_dai, w_buf, w_sched]"
    by (simp add: s0_def w_sched_def w_buf_def w_pga_def w_dai_def)
  from sof_destroy_pipelines_reverse_free[OF run] run ws show ?thesis
    by (simp add: s0_def)
qed

subsection \<open>Restore pass: order of the DAI links\<close>

text \<open>
  Claim C1, as the code has it. In every restore pass the commands that carry a DAI
  configuration are, in the order sent, the first \<open>n\<close> entries of the list of the
  stored configurations taken in reverse list order (each with the link DMA channel
  invalidated when it is an HDA configuration); when the pass returns a non-negative
  code, all of them were sent. The DAI links are replayed in the same reverse order as
  the components and the routes.
\<close>

theorem sof_restore_pipelines_dai_links_reverse:
  assumes "sof_restore_pipelines K ops s = (r, s')"
  shows "\<exists>es n. ipc_log (link s') = ipc_log (link s) @ es \<and>
           filter is_dai_config_call (map fst es) =
             take n (map (\<lambda>c. Call_tx (dai_config_req K (invalidate_link_dma K c)))
                       (List.map_filter dai_config (rev (dai_list s)))) \<and>
           (0 \<le> r \<longrightarrow> n = length (List.map_filter dai_config (rev (dai_list s))))"
proof -
  let ?plan = "map (\<lambda>c. Call_tx (dai_config_req K (invalidate_link_dma K c)))
                 (List.map_filter dai_config (rev (dai_list s)))"
  obtain ew lk1 where W: "restore_widgets_loop K ops (link s) (rev (widget_list s)) = (ew, lk1)"
    by force
  from restore_widgets_loop_log[OF W] obtain es1 where
    es1: "ipc_log lk1 = ipc_log (link s) @ es1" "\<forall>x \<in> set es1. \<not> is_dai_config_call (fst x)"
    by blast
  show ?thesis
  proof (cases ew)
    case (Some e)
    with W assms have "r = e" "s' = s\<lparr>link := lk1\<rparr>"
      by (auto simp: sof_restore_pipelines_def)
    moreover from W Some have "e < 0" by (auto dest: restore_widgets_loop_early)
    ultimately show ?thesis using es1
      by (intro exI[of _ es1] exI[of _ 0]) (simp add: filter_dai_none)
  next
    case None
    note W' = W[unfolded None]
    obtain er lk2 where R: "restore_routes_loop K ops lk1 (rev (route_list s)) = (er, lk2)"
      by force
    from restore_routes_loop_run[OF R] obtain es2 where
      es2: "ipc_log lk2 = ipc_log lk1 @ es2"
      and run2: "aborting_run (map (\<lambda>c. Call_tx (connect_req K c))
                   (List.map_filter route_private (rev (route_list s)))) es2 er"
      by blast
    note nd2 = routes_not_dai[OF run2]
    show ?thesis
    proof (cases er)
      case (Some e)
      with W' R assms have "r = e" "s' = s\<lparr>link := lk2\<rparr>"
        by (auto simp: sof_restore_pipelines_def)
      moreover from run2 Some have "e < 0" by (simp add: aborting_run_def)
      ultimately show ?thesis using es1 es2 nd2
        by (intro exI[of _ "es1 @ es2"] exI[of _ 0]) (simp add: filter_dai_none)
    next
      case None
      note R' = R[unfolded None]
      obtain ed lk3 ds where
        D: "restore_dai_links_loop K ops lk2 (rev (dai_list s)) = (ed, lk3, ds)"
        by (metis prod_cases3)
      from restore_dai_links_loop_run[OF D] obtain es3 where
        es3: "ipc_log lk3 = ipc_log lk2 @ es3" and run3: "aborting_run ?plan es3 ed"
        by blast
      note all3 = dai_calls_all[OF run3]
      show ?thesis
      proof (cases ed)
        case (Some e)
        with W' R' D assms have "r = e" "s' = s\<lparr>link := lk3, dai_list := rev ds\<rparr>"
          by (auto simp: sof_restore_pipelines_def)
        moreover from run3 Some have "e < 0" by (simp add: aborting_run_def)
        ultimately show ?thesis using es1 es2 es3 nd2 all3
          by (intro exI[of _ "es1 @ es2 @ es3"] exI[of _ "length es3"])
             (simp add: filter_dai_none)
      next
        case None
        note D' = D[unfolded None]
        obtain lk4 ws where C: "complete_pipelines_loop ops lk3 (widget_list s) = (lk4, ws)"
          by force
        from complete_pipelines_loop_log[OF C] obtain es4 where
          es4: "ipc_log lk4 = ipc_log lk3 @ es4"
               "\<forall>x \<in> set es4. \<not> is_dai_config_call (fst x)"
          by blast
        from W' R' D' C assms have
          Kc: "sof_restore_kcontrols K ops
                 (s\<lparr>link := lk4, dai_list := rev ds, widget_list := ws\<rparr>) = (r, s')"
          by (simp add: sof_restore_pipelines_def)
        from sof_restore_kcontrols_log[OF Kc] obtain es5 where
          es5: "ipc_log (link s') = ipc_log lk4 @ es5"
               "\<forall>x \<in> set es5. \<not> is_dai_config_call (fst x)"
          by auto
        from run3 None have len3: "length es3 = length ?plan"
          by (simp add: aborting_run_def)
        show ?thesis using es1 es2 es3 es4 es5 nd2 all3 len3
          by (intro exI[of _ "es1 @ es2 @ es3 @ es4 @ es5"] exI[of _ "length es3"])
             (simp add: filter_dai_none)
      qed
    qed
  qed
qed

text \<open>
  Claim C1 on the example topology, with a device that never fails: the
  configuration of the second DAI link is sent before that of the first.
\<close>

theorem sof_restore_pipelines_dai_links_reverse_witness:
  "fst (sof_restore_pipelines K0 (scripted_ops 99) s0) = 0 \<and>
   filter is_dai_config_call
     (map fst (ipc_log (link (snd (sof_restore_pipelines K0 (scripted_ops 99) s0))))) =
   [Call_tx (dai_config_req K0 (invalidate_link_dma K0 config_B)),
    Call_tx (dai_config_req K0 (invalidate_link_dma K0 config_A))]"
proof -
  have r: "fst (sof_restore_pipelines K0 (scripted_ops 99) s0) = 0"
    by (simp add: ex_defs run_defs connect_req_def dai_config_req_def)
  then have run: "sof_restore_pipelines K0 (scripted_ops 99) s0 =
                    (0, snd (sof_restore_pipelines K0 (scripted_ops 99) s0))"
    by (simp add: prod_eq_iff)
  have plan: "List.map_filter dai_config (rev (dai_list s0)) = [config_B, config_A]"
    by (simp add: s0_def dai_A_def dai_B_def)
  have log0: "ipc_log (link s0) = []" by (simp add: s0_def)
  from sof_restore_pipelines_dai_links_reverse[OF run] r plan log0 show ?thesis
    by auto
qed

text \<open>
  Claim C1 as stated (DAI-link commands in forward list order) fails on the example
  topology: the DAI list is \<open>[dai_A, dai_B]\<close>, and the configuration of \<open>dai_B\<close> is
  sent first.
\<close>

theorem sof_restore_pipelines_dai_links_forward_counterexample:
  "dai_list s0 = [dai_A, dai_B] \<and>
   filter is_dai_config_call
     (map fst (ipc_log (link (snd (sof_restore_pipelines K0 (scripted_ops 99) s0))))) =
   [Call_tx (dai_config_req K0 (invalidate_link_dma K0 config_B)),
    Call_tx (dai_config_req K0 (invalidate_link_dma K0 config_A))] \<and>
   Call_tx (dai_config_req K0 (invalidate_link_dma K0 config_B)) \<noteq>
   Call_tx (dai_config_req K0 (invalidate_link_dma K0 config_A))"
  by (simp add: ex_defs run_defs connect_req_def dai_config_req_def)

subsection \<open>Restore pass: a failing route\<close>

text \<open>
  Claim C7. Take any restore pass and the calls it added to the log. If one of them is
  a route command that returned a negative code \<open>e\<close>, then the pass returns \<open>e\<close>
  itself, the failing command is the last call of the pass, and every call before it
  returned a non-negative code. So no later route is replayed, and no call of the
  later steps was made: no DAI configuration, no pipeline completion and no control
  write. The widget, route, DAI and control lists are returned as they were, so no
  link DMA channel was invalidated, no completion flag written and no control cursor
  reset.
\<close>

theorem sof_restore_pipelines_route_failure:
  assumes run: "sof_restore_pipelines K ops s = (r, s')"
      and log: "ipc_log (link s') = ipc_log (link s) @ es"
      and call: "(Call_tx (connect_req K c), e) \<in> set es"
      and fail: "e < 0"
  shows "r = e \<and> last es = (Call_tx (connect_req K c), e) \<and>
         (\<forall>x \<in> set (butlast es). 0 \<le> snd x) \<and>
         (\<forall>x \<in> set es. \<not> is_later_step_call (fst x)) \<and>
         widget_list s' = widget_list s \<and> route_list s' = route_list s \<and>
              dai_list s' = dai_list s \<and> kcontrol_list s' = kcontrol_list s"
proof -
  from sof_restore_pipelines_shape[OF run] obtain es12 rest early where
    sh: "ipc_log (link s') = ipc_log (link s) @ es12 @ rest"
        "\<forall>x \<in> set es12. \<not> is_later_step_call (fst x)"
        "\<forall>x \<in> set rest. is_later_step_call (fst x)"
        "run_stops es12 early"
        "\<forall>e. early = Some e \<longrightarrow> r = e \<and> rest = [] \<and> widget_list s' = widget_list s \<and> route_list s' = route_list s \<and>
              dai_list s' = dai_list s \<and> kcontrol_list s' = kcontrol_list s"
    by blast
  from sh(1) log have es: "es = es12 @ rest" by simp
  have "\<not> is_later_step_call (Call_tx (connect_req K c))" by (simp add: connect_req_def)
  then have nl: "\<not> is_later_step_call (fst (Call_tx (connect_req K c), e))" by simp
  from call have "(Call_tx (connect_req K c), e) \<in> set es12 \<or>
                  (Call_tx (connect_req K c), e) \<in> set rest"
    unfolding es by simp
  with sh(3) nl have in12: "(Call_tx (connect_req K c), e) \<in> set es12" by blast
  from run_stops_negative_last[OF sh(4) in12 fail] have
    early: "early = Some e" and l12: "last es12 = (Call_tx (connect_req K c), e)" by simp_all
  from sh(5) early have res: "r = e" "rest = []" "widget_list s' = widget_list s \<and> route_list s' = route_list s \<and>
              dai_list s' = dai_list s \<and> kcontrol_list s' = kcontrol_list s" by blast+
  from es res(2) have es': "es = es12" by simp
  from sh(4) have "\<forall>x \<in> set (butlast es12). 0 \<le> snd x" by (simp add: run_stops_def)
  with res l12 sh(2) es' show ?thesis by simp
qed

text \<open>
  Claim C7 on the example topology, with a device that fails the fifth call, which is
  the second of the three route commands: the pass returns \<open>-5\<close>, the log ends with
  that command, and the third route command is not in it.
\<close>

theorem sof_restore_pipelines_route_failure_witness:
  "sof_restore_pipelines K0 (scripted_ops 4) s0 = (- 5, s0_route_failed) \<and>
   ipc_log (link s0_route_failed) = ipc_log (link s0) @ log_route_failed \<and>
   (Call_tx (connect_req K0 (blob 0x30030000 [2, 3])), - 5) \<in> set log_route_failed \<and>
   (- 5 :: int) < 0 \<and>
   last log_route_failed = (Call_tx (connect_req K0 (blob 0x30030000 [2, 3])), - 5) \<and>
   widget_list s0_route_failed = widget_list s0 \<and>
   route_list s0_route_failed = route_list s0 \<and>
   dai_list s0_route_failed = dai_list s0 \<and>
   kcontrol_list s0_route_failed = kcontrol_list s0"
proof -
  have run: "sof_restore_pipelines K0 (scripted_ops 4) s0 = (- 5, s0_route_failed)"
    by (simp add: ex_defs run_defs s0_route_failed_def log_route_failed_def)
  have log: "ipc_log (link s0_route_failed) = ipc_log (link s0) @ log_route_failed"
    by (simp add: s0_route_failed_def s0_def)
  have call: "(Call_tx (connect_req K0 (blob 0x30030000 [2, 3])), - 5) \<in> set log_route_failed"
    by (simp add: log_route_failed_def)
  have fail: "(- 5 :: int) < 0" by simp
  from sof_restore_pipelines_route_failure[OF run log call fail]
  have "last log_route_failed = (Call_tx (connect_req K0 (blob 0x30030000 [2, 3])), - 5) \<and>
        widget_list s0_route_failed = widget_list s0 \<and>
        route_list s0_route_failed = route_list s0 \<and>
        dai_list s0_route_failed = dai_list s0 \<and>
        kcontrol_list s0_route_failed = kcontrol_list s0"
    by blast
  with run log call fail show ?thesis by blast
qed

subsection \<open>Restore of the control values\<close>

text \<open>
  Claim C9. The control restore visits the controls in list order: the first \<open>n\<close>
  controls have their read cursor set to zero and the others are untouched. The
  calls made are exactly the replays of the visited controls, in order, each
  passing the control with its cursor already at zero: the set-value operation with
  the channel value type for volume, enum and switch controls, the set-data
  operation with the data type for binary controls, no call for any other kind. All
  calls but the last succeeded. When the result is negative it is the return code of
  the last call, which is the replay of the last visited control; otherwise the
  result is 0 and every control was visited.
\<close>

theorem sof_restore_kcontrols_replay:
  assumes "sof_restore_kcontrols K ops s = (r, s')"
  shows "\<exists>n es. n \<le> length (kcontrol_list s) \<and>
     kcontrol_list s' =
       map (\<lambda>sc. sc\<lparr>readback_offset := 0\<rparr>) (take n (kcontrol_list s)) @
       drop n (kcontrol_list s) \<and>
     ipc_log (link s') = ipc_log (link s) @ es \<and>
     map fst es = List.map_filter (spec_kcontrol_replay K) (take n (kcontrol_list s)) \<and>
     (\<forall>e \<in> set (butlast es). 0 \<le> snd e) \<and>
     (r < 0 \<longrightarrow> es \<noteq> [] \<and> snd (last es) = r \<and> 0 < n \<and>
        spec_kcontrol_replay K (kcontrol_list s ! (n - 1)) = Some (fst (last es))) \<and>
     (0 \<le> r \<longrightarrow> r = 0 \<and> n = length (kcontrol_list s) \<and> (\<forall>e \<in> set es. 0 \<le> snd e))"
proof -
  obtain lk scs where
    loop: "restore_kcontrols_loop K ops (link s) 0 (kcontrol_list s) = (r, lk, scs)" and
    s': "s' = s\<lparr>link := lk, kcontrol_list := scs\<rparr>"
    using assms by (auto simp: sof_restore_kcontrols_def split: prod.splits)
  from restore_kcontrols_loop_run[OF loop] s' show ?thesis by simp
qed

text \<open>
  Claim C9 on the example topology, with a device that fails the second call: the
  volume control is replayed, the replay of the binary control fails with \<open>-5\<close>,
  and the third control keeps its cursor.
\<close>

theorem sof_restore_kcontrols_replay_witness:
  "sof_restore_kcontrols K0 (scripted_ops 1) s0 = (- 5, s0_kcontrols_failed) \<and>
   (\<exists>n es. n \<le> length (kcontrol_list s0) \<and>
     kcontrol_list s0_kcontrols_failed =
       map (\<lambda>sc. sc\<lparr>readback_offset := 0\<rparr>) (take n (kcontrol_list s0)) @
       drop n (kcontrol_list s0) \<and>
     ipc_log (link s0_kcontrols_failed) = ipc_log (link s0) @ es \<and>
     map fst es = List.map_filter (spec_kcontrol_replay K0) (take n (kcontrol_list s0)) \<and>
     (\<forall>e \<in> set (butlast es). 0 \<le> snd e) \<and>
     (- 5 < (0::int) \<longrightarrow> es \<noteq> [] \<and> snd (last es) = - 5 \<and> 0 < n \<and>
        spec_kcontrol_replay K0 (kcontrol_list s0 ! (n - 1)) = Some (fst (last es))) \<and>
     ((0::int) \<le> - 5 \<longrightarrow> - 5 = (0::int) \<and> n = length (kcontrol_list s0) \<and>
        (\<forall>e \<in> set es. 0 \<le> snd e)))"
proof -
  have run: "sof_restore_kcontrols K0 (scripted_ops 1) s0 = (- 5, s0_kcontrols_failed)"
    by (simp add: s0_kcontrols_failed_def ex_defs run_defs)
  show ?thesis
    by (rule conjI [OF run sof_restore_kcontrols_replay [OF run]])
qed

section \<open>Lemmas about the IPC layer\<close>

lemma snd_sof_ipc_reply_flag:
  "disable_ipc_tx (snd (snd_sof_ipc_reply ipc msg_id)) = disable_ipc_tx ipc"
  by (simp add: snd_sof_ipc_reply_def)




lemma sof_ipc_tx_message_unlocked_disabled:
  "disable_ipc_tx ipc \<Longrightarrow>
   sof_ipc_tx_message_unlocked ops ipc h d n rb rn = (- ENODEV, rb, ipc)"
  by (simp add: sof_ipc_tx_message_unlocked_def)

lemma large_ctrl_round_disabled:
  "disable_ipc_tx (ipc_obj st) \<Longrightarrow>
   fst (large_ctrl_round ops sp send i rem off st) = - ENODEV \<and>
   ipc_obj (snd (large_ctrl_round ops sp send i rem off st)) = ipc_obj st"
  by (simp add: large_ctrl_round_def Let_def sof_ipc_tx_message_unlocked_disabled ENODEV_def)

lemma large_ctrl_loop_disabled:
  "disable_ipc_tx (ipc_obj st) \<Longrightarrow>
   ipc_obj (snd (large_ctrl_loop ops sp send i rem off err st)) = ipc_obj st"
  using large_ctrl_round_disabled[of st ops sp send i rem off]
  by (subst large_ctrl_loop.simps) (auto simp: ENODEV_def split: prod.splits)

lemma wait_event_timeout_timed_out:
  "wait_event_timeout ops ipc = (0, ipc1) \<Longrightarrow>
   \<not> ipc_complete (msg ipc) \<and> fst (irq_reply ops (platform ipc)) = None \<and>
   ipc1 = ipc\<lparr>platform := snd (irq_reply ops (platform ipc))\<rparr>"
  by (auto simp: wait_event_timeout_def snd_sof_ipc_reply_def
           split: prod.splits option.splits if_splits)

lemma sent_msgs_append: "sent_msgs (xs @ ys) = sent_msgs xs @ sent_msgs ys"
  by (induction xs rule: sent_msgs.induct) auto

lemma wait_event_timeout_events:
  "\<exists>evs. events (snd (wait_event_timeout ops ipc)) = events ipc @ evs \<and> sent_msgs evs = []"
  by (auto simp: wait_event_timeout_def snd_sof_ipc_reply_def split: prod.splits option.splits)

lemma tx_wait_done_events:
  "\<exists>evs. events (snd (snd (tx_wait_done ops ipc rb))) = events ipc @ evs \<and> sent_msgs evs = []"
proof -
  obtain w ipc1 where w: "wait_event_timeout ops ipc = (w, ipc1)" by force
  with wait_event_timeout_events[of ops ipc] obtain evs where
    evs: "events ipc1 = events ipc @ evs" "sent_msgs evs = []" by auto
  show ?thesis
  proof (cases "w = 0")
    case True
    with w evs show ?thesis
      by (intro exI[of _ "evs @ [Ev_fw_exception]"]) (simp add: tx_wait_done_def sent_msgs_append)
  next
    case False
    with w evs show ?thesis
      by (intro exI[of _ evs]) (simp add: tx_wait_done_def Let_def)
  qed
qed

lemma sof_ipc_tx_message_unlocked_sent:
  assumes "sof_ipc_tx_message_unlocked ops ipc h d n rb rn = (r, rb', ipc')"
  shows "\<exists>evs. events ipc' = events ipc @ evs \<and>
           (if disable_ipc_tx ipc then evs = [] \<and> r < 0
            else \<exists>m. sent_msgs evs = [m] \<and> msg_size m = n \<and> msg_header m = h \<and>
                     (n \<noteq> 0 \<longrightarrow> msg_data m = d))"
proof (cases "disable_ipc_tx ipc")
  case True
  with assms show ?thesis by (simp add: sof_ipc_tx_message_unlocked_def ENODEV_def)
next
  case False
  let ?m = "(msg ipc)\<lparr>msg_header := h, msg_size := n, reply_size := rn, reply_error := 0,
                 msg_data := (if n \<noteq> 0 then d else msg_data (msg ipc))\<rparr>"
  obtain ret p where s: "snd_sof_dsp_send_msg ops (platform ipc) ?m = (ret, p)" by force
  let ?ipc1 = "ipc\<lparr>msg := (if ret = 0 then ?m\<lparr>ipc_complete := False\<rparr> else ?m), platform := p,
                    events := events ipc @ [Ev_send_msg ?m ret]\<rparr>"
  show ?thesis
  proof (cases "ret = 0")
    case True
    with assms False s have "tx_wait_done ops ?ipc1 rb = (r, rb', ipc')"
      by (simp add: sof_ipc_tx_message_unlocked_def Let_def)
    with tx_wait_done_events[of ops ?ipc1 rb] obtain evs where
      "events ipc' = events ipc @ [Ev_send_msg ?m ret] @ evs" "sent_msgs evs = []" by auto
    with False show ?thesis
      by (intro exI[of _ "[Ev_send_msg ?m ret] @ evs"]) simp
  next
    case nz: False
    with assms False s have "ipc' = ?ipc1"
      by (auto simp: sof_ipc_tx_message_unlocked_def Let_def split: if_splits)
    with False show ?thesis
      by (intro exI[of _ "[Ev_send_msg ?m ret]"]) simp
  qed
qed

lemma large_ctrl_round_sent:
  assumes "large_ctrl_round ops sp send i rem off st = (err, st')" and "0 < rem"
      and "0 < pl_size sp"
  shows "\<exists>evs. events (ipc_obj st') = events (ipc_obj st) @ evs \<and>
           (sent_msgs evs = [] \<and> err < 0 \<or>
            (\<exists>m. sent_msgs evs = [m] \<and>
                 chunk_fields m = (min (pl_size sp) rem, i, rem - min (pl_size sp) rem) \<and>
                 msg_size m = hdr_bytes sp + min (pl_size sp) rem \<and>
                 (send \<longrightarrow> elems (msg_data m) =
                    memcpy (elems (partdata st)) (drop off (elems (cdata st)))
                      (min (pl_size sp) rem)))) \<and>
           (send \<longrightarrow> cdata st' = cdata st)"
proof -
  let ?sb = "min rem (pl_size sp)"
  let ?pd0 = "(partdata st)\<lparr>num_elems := ?sb, rhdr_size := hdr_bytes sp + ?sb, msg_index := i,
                             elems_remaining := rem - ?sb\<rparr>"
  let ?pd = "if send then ?pd0\<lparr>elems := memcpy (elems ?pd0) (drop off (elems (cdata st))) ?sb\<rparr>
             else ?pd0"
  obtain e pd' ipc' where
    tx: "sof_ipc_tx_message_unlocked ops (ipc_obj st) (rhdr_cmd ?pd) ?pd (rhdr_size ?pd)
           ?pd (rhdr_size ?pd) = (e, pd', ipc')"
    by (metis prod_cases3)
  from assms(1) tx have err: "err = e" and ipc': "ipc_obj st' = ipc'"
    and cd: "send \<longrightarrow> cdata st' = cdata st"
    by (auto simp: large_ctrl_round_def Let_def split: if_splits)
  from assms(2,3) have pos: "0 < ?sb" by simp
  then have nz: "rhdr_size ?pd \<noteq> 0" by simp
  from sof_ipc_tx_message_unlocked_sent[OF tx] obtain evs where
    evs: "events ipc' = events (ipc_obj st) @ evs"
    and c: "if disable_ipc_tx (ipc_obj st) then evs = [] \<and> e < 0
            else \<exists>m. sent_msgs evs = [m] \<and> msg_size m = rhdr_size ?pd \<and>
                     msg_header m = rhdr_cmd ?pd \<and> (rhdr_size ?pd \<noteq> 0 \<longrightarrow> msg_data m = ?pd)"
    by blast
  show ?thesis
  proof (cases "disable_ipc_tx (ipc_obj st)")
    case True
    with c evs err ipc' cd show ?thesis by (intro exI[of _ evs]) simp
  next
    case False
    with c nz obtain m where m: "sent_msgs evs = [m]" "msg_size m = rhdr_size ?pd"
      "msg_data m = ?pd" by auto
    with evs ipc' cd show ?thesis
      by (intro exI[of _ evs]) (auto simp: chunk_fields_def min.commute)
  qed
qed

lemma DIV_ROUND_UP_less: "0 < C \<Longrightarrow> i < DIV_ROUND_UP S C \<longleftrightarrow> i * C < S"
proof -
  assume C: "0 < C"
  have "i < (S + C - 1) div C \<longleftrightarrow> Suc i \<le> (S + C - 1) div C" by auto
  also have "\<dots> \<longleftrightarrow> Suc i * C \<le> S + C - 1"
    using C by (simp add: less_eq_div_iff_mult_less_eq)
  also have "\<dots> \<longleftrightarrow> i * C < S" using C by auto
  finally show ?thesis by (simp add: DIV_ROUND_UP_def)
qed


lemma chunk_payload_set:
  assumes "msg_size m = H + sb" and "elems (msg_data m) = memcpy old (drop off src) sb"
      and "off + sb \<le> length src"
  shows "chunk_payload H m = take sb (drop off src)"
  using assms by (simp add: chunk_payload_def memcpy_def)

lemma large_ctrl_loop_sent:
  assumes "large_ctrl_loop ops sp send i rem off err st = (err', st')"
      and "0 < pl_size sp" and "num_msg sp = DIV_ROUND_UP S (pl_size sp)"
      and "rem = S - i * pl_size sp" and "off = i * pl_size sp"
  shows "\<exists>evs k. events (ipc_obj st') = events (ipc_obj st) @ evs \<and> k \<le> num_msg sp - i \<and>
           map chunk_fields (sent_msgs evs) =
             map (\<lambda>j. (min (pl_size sp) (S - j * pl_size sp), j,
                        S - j * pl_size sp - min (pl_size sp) (S - j * pl_size sp)))
               [i ..< i + k] \<and>
           (\<forall>m \<in> set (sent_msgs evs). msg_size m = hdr_bytes sp + num_elems (msg_data m)) \<and>
           (0 \<le> err' \<longrightarrow> i < num_msg sp \<longrightarrow> k = num_msg sp - i) \<and>
           (i < num_msg sp \<or> (err' = err \<and> st' = st)) \<and>
           (send \<longrightarrow> S \<le> length (elems (cdata st)) \<longrightarrow>
              cdata st' = cdata st \<and>
              concat (map (chunk_payload (hdr_bytes sp)) (sent_msgs evs)) =
                take (min S ((i + k) * pl_size sp) - i * pl_size sp)
                  (drop (i * pl_size sp) (elems (cdata st))))"
  using assms
proof (induction "num_msg sp - i" arbitrary: i rem off err st)
  case 0
  then have "\<not> i < num_msg sp" by simp
  with "0.prems"(1) have "err' = err" "st' = st"
    by (simp_all add: large_ctrl_loop.simps)
  then show ?case using \<open>\<not> i < num_msg sp\<close>
    by (intro exI[of _ "[]"] exI[of _ 0]) simp
next
  case (Suc n)
  let ?C = "pl_size sp"
  from Suc.hyps(2) have lt: "i < num_msg sp" by simp
  with Suc.prems(2,3) have iC: "i * ?C < S" by (simp add: DIV_ROUND_UP_less)
  with Suc.prems(4) have rem_pos: "0 < rem" by simp
  obtain e1 st1 where rnd: "large_ctrl_round ops sp send i rem off st = (e1, st1)" by force
  from large_ctrl_round_sent[OF rnd rem_pos Suc.prems(2)] obtain evs1 where
    evs1: "events (ipc_obj st1) = events (ipc_obj st) @ evs1"
    and alt: "sent_msgs evs1 = [] \<and> e1 < 0 \<or>
            (\<exists>m. sent_msgs evs1 = [m] \<and>
                 chunk_fields m = (min ?C rem, i, rem - min ?C rem) \<and>
                 msg_size m = hdr_bytes sp + min ?C rem \<and>
                 (send \<longrightarrow> elems (msg_data m) =
                    memcpy (elems (partdata st)) (drop off (elems (cdata st))) (min ?C rem)))"
    and cd1: "send \<longrightarrow> cdata st1 = cdata st"
    by blast
  have take1: "take (min ?C rem) (drop off (elems (cdata st))) =
               take (min S ((i + 1) * ?C) - i * ?C) (drop (i * ?C) (elems (cdata st)))"
  proof -
    have "min ?C rem = min S ((i + 1) * ?C) - i * ?C"
      using Suc.prems(4) iC by (auto simp: min_def algebra_simps)
    then show ?thesis using Suc.prems(5) by simp
  qed
  show ?case
  proof (cases "e1 < 0")
    case True
    with Suc.prems(1) lt rnd have res: "err' = e1" "st' = st1"
      by (simp_all add: large_ctrl_loop.simps)
    from alt show ?thesis
    proof
      assume "sent_msgs evs1 = [] \<and> e1 < 0"
      with res evs1 cd1 lt show ?thesis
        by (intro exI[of _ evs1] exI[of _ 0]) simp
    next
      assume "\<exists>m. sent_msgs evs1 = [m] \<and>
                 chunk_fields m = (min ?C rem, i, rem - min ?C rem) \<and>
                 msg_size m = hdr_bytes sp + min ?C rem \<and>
                 (send \<longrightarrow> elems (msg_data m) =
                    memcpy (elems (partdata st)) (drop off (elems (cdata st))) (min ?C rem))"
      then obtain m where m: "sent_msgs evs1 = [m]"
        "chunk_fields m = (min ?C rem, i, rem - min ?C rem)"
        "msg_size m = hdr_bytes sp + min ?C rem"
        "send \<longrightarrow> elems (msg_data m) =
           memcpy (elems (partdata st)) (drop off (elems (cdata st))) (min ?C rem)" by blast
      have pay: "chunk_payload (hdr_bytes sp) m = take (min ?C rem) (drop off (elems (cdata st)))"
        if "send" "S \<le> length (elems (cdata st))"
        using that m(3,4) Suc.prems(4,5) iC by (intro chunk_payload_set[where old="elems (partdata st)"]) auto
      from m(2) have ne: "num_elems (msg_data m) = min ?C rem" by (simp add: chunk_fields_def)
      have c1: "events (ipc_obj st') = events (ipc_obj st) @ evs1" using res evs1 by simp
      have c2: "1 \<le> num_msg sp - i" using lt by simp
      have c3: "map chunk_fields (sent_msgs evs1) =
             map (\<lambda>j. (min ?C (S - j * ?C), j, S - j * ?C - min ?C (S - j * ?C))) [i ..< i + 1]"
        using m(1,2) Suc.prems(4) by simp
      have c4: "\<forall>m \<in> set (sent_msgs evs1). msg_size m = hdr_bytes sp + num_elems (msg_data m)"
        using m(1,3) ne by simp
      have c5: "0 \<le> err' \<longrightarrow> i < num_msg sp \<longrightarrow> 1 = num_msg sp - i" using res True by simp
      have c6: "i < num_msg sp \<or> (err' = err \<and> st' = st)" using lt by simp
      have c7: "send \<longrightarrow> S \<le> length (elems (cdata st)) \<longrightarrow>
              cdata st' = cdata st \<and>
              concat (map (chunk_payload (hdr_bytes sp)) (sent_msgs evs1)) =
                take (min S ((i + 1) * ?C) - i * ?C) (drop (i * ?C) (elems (cdata st)))"
        using res cd1 m(1) pay take1 by simp
      show ?thesis
        by (rule exI[of _ evs1], rule exI[of _ 1]) (intro conjI c1 c2 c3 c4 c5 c6 c7)
    qed
  next
    case False
    with alt obtain m where m: "sent_msgs evs1 = [m]"
        "chunk_fields m = (min ?C rem, i, rem - min ?C rem)"
        "msg_size m = hdr_bytes sp + min ?C rem"
        "send \<longrightarrow> elems (msg_data m) =
           memcpy (elems (partdata st)) (drop off (elems (cdata st))) (min ?C rem)" by auto
    have pay: "chunk_payload (hdr_bytes sp) m = take (min ?C rem) (drop off (elems (cdata st)))"
      if "send" "S \<le> length (elems (cdata st))"
      using that m(3,4) Suc.prems(4,5) iC by (intro chunk_payload_set[where old="elems (partdata st)"]) auto
    from m(2) have ne: "num_elems (msg_data m) = min ?C rem" by (simp add: chunk_fields_def)
    from False Suc.prems(1) lt rnd have
      rec: "large_ctrl_loop ops sp send (i + 1) (rem - min rem ?C) (off + ?C) e1 st1 = (err', st')"
      by (subst (asm) large_ctrl_loop.simps) simp
    have n: "n = num_msg sp - (i + 1)" using Suc.hyps(2) by simp
    have rem': "rem - min rem ?C = S - (i + 1) * ?C"
      using Suc.prems(4) by (auto simp: min_def algebra_simps)
    have off': "off + ?C = (i + 1) * ?C" using Suc.prems(5) by simp
    from Suc.hyps(1)[OF n rec Suc.prems(2,3) rem' off'] obtain evs2 k2 where
      IH: "events (ipc_obj st') = events (ipc_obj st1) @ evs2" "k2 \<le> num_msg sp - (i + 1)"
        "map chunk_fields (sent_msgs evs2) =
             map (\<lambda>j. (min ?C (S - j * ?C), j, S - j * ?C - min ?C (S - j * ?C)))
               [i + 1 ..< i + 1 + k2]"
        "\<forall>m \<in> set (sent_msgs evs2). msg_size m = hdr_bytes sp + num_elems (msg_data m)"
        "0 \<le> err' \<longrightarrow> i + 1 < num_msg sp \<longrightarrow> k2 = num_msg sp - (i + 1)"
        "i + 1 < num_msg sp \<or> (err' = e1 \<and> st' = st1)"
        "send \<longrightarrow> S \<le> length (elems (cdata st1)) \<longrightarrow>
              cdata st' = cdata st1 \<and>
              concat (map (chunk_payload (hdr_bytes sp)) (sent_msgs evs2)) =
                take (min S ((i + 1 + k2) * ?C) - (i + 1) * ?C)
                  (drop ((i + 1) * ?C) (elems (cdata st1)))"
      by blast
    have k2full: "0 \<le> err' \<longrightarrow> k2 = num_msg sp - (i + 1)"
      using IH(5,6,2) by auto
    have cat: "take (min ?C rem) (drop off (elems (cdata st))) @
               take (min S ((i + 1 + k2) * ?C) - (i + 1) * ?C)
                  (drop ((i + 1) * ?C) (elems (cdata st))) =
               take (min S ((i + (1 + k2)) * ?C) - i * ?C) (drop (i * ?C) (elems (cdata st)))"
    proof (cases "(i + 1) * ?C \<le> S")
      case True
      then have a: "min ?C rem = ?C" using Suc.prems(4) by (auto simp: min_def algebra_simps)
      have b: "min S ((i + (1 + k2)) * ?C) - i * ?C =
               ?C + (min S ((i + 1 + k2) * ?C) - (i + 1) * ?C)"
        using True by (auto simp: min_def algebra_simps)
      have c: "drop ((i + 1) * ?C) (elems (cdata st)) = drop ?C (drop (i * ?C) (elems (cdata st)))"
        by (simp add: algebra_simps)
      show ?thesis
        unfolding a b c Suc.prems(5) take_add ..
    next
      case F: False
      then have a: "min ?C rem = S - i * ?C"
        using Suc.prems(4) by (auto simp: min_def algebra_simps)
      from F have z: "min S ((i + 1 + k2) * ?C) - (i + 1) * ?C = 0"
        by (auto simp: min_def algebra_simps)
      from F have f: "min S ((i + (1 + k2)) * ?C) = S" by (auto simp: min_def algebra_simps)
      show ?thesis unfolding a z f Suc.prems(5) by simp
    qed
    have c1: "events (ipc_obj st') = events (ipc_obj st) @ (evs1 @ evs2)"
      using IH(1) evs1 by simp
    have c2: "1 + k2 \<le> num_msg sp - i" using IH(2) lt by simp
    have upt: "[i ..< i + (1 + k2)] = i # [i + 1 ..< i + 1 + k2]"
      by (simp add: upt_rec[of i])
    have c3: "map chunk_fields (sent_msgs (evs1 @ evs2)) =
             map (\<lambda>j. (min ?C (S - j * ?C), j, S - j * ?C - min ?C (S - j * ?C)))
               [i ..< i + (1 + k2)]"
      unfolding upt sent_msgs_append using m(1,2) IH(3) Suc.prems(4) by simp
    have c4: "\<forall>m \<in> set (sent_msgs (evs1 @ evs2)).
                msg_size m = hdr_bytes sp + num_elems (msg_data m)"
      unfolding sent_msgs_append using m(1,3) ne IH(4) by simp
    have c5: "0 \<le> err' \<longrightarrow> i < num_msg sp \<longrightarrow> 1 + k2 = num_msg sp - i"
      using k2full lt by auto
    have c6: "i < num_msg sp \<or> (err' = err \<and> st' = st)" using lt by simp
    have c7: "send \<longrightarrow> S \<le> length (elems (cdata st)) \<longrightarrow>
              cdata st' = cdata st \<and>
              concat (map (chunk_payload (hdr_bytes sp)) (sent_msgs (evs1 @ evs2))) =
                take (min S ((i + (1 + k2)) * ?C) - i * ?C) (drop (i * ?C) (elems (cdata st)))"
    proof (intro impI)
      assume snd: "send" and len: "S \<le> length (elems (cdata st))"
      from cd1 snd have cd: "cdata st1 = cdata st" by simp
      with IH(7) snd len have
        a: "cdata st' = cdata st" and
        b: "concat (map (chunk_payload (hdr_bytes sp)) (sent_msgs evs2)) =
                take (min S ((i + 1 + k2) * ?C) - (i + 1) * ?C)
                  (drop ((i + 1) * ?C) (elems (cdata st)))"
        by simp_all
      have "concat (map (chunk_payload (hdr_bytes sp)) (sent_msgs (evs1 @ evs2))) =
              take (min ?C rem) (drop off (elems (cdata st))) @
              take (min S ((i + 1 + k2) * ?C) - (i + 1) * ?C)
                  (drop ((i + 1) * ?C) (elems (cdata st)))"
        unfolding sent_msgs_append using m(1) pay[OF snd len] b by simp
      with cat a show "cdata st' = cdata st \<and>
              concat (map (chunk_payload (hdr_bytes sp)) (sent_msgs (evs1 @ evs2))) =
                take (min S ((i + (1 + k2)) * ?C) - i * ?C) (drop (i * ?C) (elems (cdata st)))"
        by simp
    qed
    show ?thesis
      by (rule exI[of _ "evs1 @ evs2"], rule exI[of _ "1 + k2"])
         (intro conjI c1 c2 c3 c4 c5 c6 c7)
  qed
qed

lemma sof_ipc_set_get_large_ctrl_data_run:
  assumes "SOF_ABI_VER_3_3_0 C \<le> abi_version ipc"
      and "\<forall>n. ctrl_type cd \<noteq> SOF_CTRL_TYPE_other n"
      and "hdr_bytes sp < SOF_IPC_MSG_MAX_SIZE C"
  shows "\<exists>err st' sp' pd.
           sp' = sp\<lparr>pl_size := SOF_IPC_MSG_MAX_SIZE C - hdr_bytes sp,
                     num_msg := DIV_ROUND_UP (msg_bytes sp) (SOF_IPC_MSG_MAX_SIZE C - hdr_bytes sp)\<rparr> \<and>
           large_ctrl_loop ops sp' send 0 (msg_bytes sp) 0 0
             \<lparr>cdata = cd, partdata = pd, ipc_obj = ipc\<rparr> = (err, st') \<and>
           sof_ipc_set_get_large_ctrl_data C ops True ipc cd sp send =
             Some (err, cdata st', sp', ipc_obj st')"
proof -
  let ?sp = "sp\<lparr>pl_size := SOF_IPC_MSG_MAX_SIZE C - hdr_bytes sp,
                  num_msg := DIV_ROUND_UP (msg_bytes sp) (SOF_IPC_MSG_MAX_SIZE C - hdr_bytes sp)\<rparr>"
  let ?pd = "cd\<lparr>elems := replicate (SOF_IPC_MSG_MAX_SIZE C - hdr_bytes sp) 0\<rparr>"
  have p: "sof_get_ctrl_copy_params C (ctrl_type cd) sp = Some (0, ?sp)"
    using assms(2,3) by (cases "ctrl_type cd") (simp_all add: sof_get_ctrl_copy_params_def Let_def)
  obtain err st' where
    l: "large_ctrl_loop ops ?sp send 0 (msg_bytes sp) 0 0
          \<lparr>cdata = cd, partdata = ?pd, ipc_obj = ipc\<rparr> = (err, st')" by force
  have "sof_ipc_set_get_large_ctrl_data C ops True ipc cd sp send =
          Some (err, cdata st', ?sp, ipc_obj st')"
    using assms(1) p l by (simp add: sof_ipc_set_get_large_ctrl_data_def Let_def)
  with l show ?thesis by blast
qed

lemma large_ctrl_loop_sent0:
  assumes loop: "large_ctrl_loop ops sp send 0 S 0 err st = (err', st')"
      and pos: "0 < pl_size sp" and nm: "num_msg sp = DIV_ROUND_UP S (pl_size sp)"
  shows "\<exists>evs k. events (ipc_obj st') = events (ipc_obj st) @ evs \<and> k \<le> num_msg sp \<and>
           map chunk_fields (sent_msgs evs) =
             map (\<lambda>j. (min (pl_size sp) (S - j * pl_size sp), j,
                        S - j * pl_size sp - min (pl_size sp) (S - j * pl_size sp)))
               [0 ..< k] \<and>
           (\<forall>m \<in> set (sent_msgs evs). msg_size m = hdr_bytes sp + num_elems (msg_data m)) \<and>
           (0 \<le> err' \<longrightarrow> k = num_msg sp) \<and>
           (send \<longrightarrow> S \<le> length (elems (cdata st)) \<longrightarrow>
              cdata st' = cdata st \<and>
              concat (map (chunk_payload (hdr_bytes sp)) (sent_msgs evs)) =
                take (min S (k * pl_size sp)) (elems (cdata st)))"
proof -
  have r: "S = S - 0 * pl_size sp" and o: "0 = 0 * pl_size sp" by simp_all
  from large_ctrl_loop_sent[OF loop pos nm r o] show ?thesis
    apply (elim exE conjE)
    subgoal for evs k
      apply (rule exI[of _ evs], rule exI[of _ k])
      apply (cases "0 < num_msg sp")
       apply simp_all
      done
    done
qed


subsection \<open>A transfer that fails, and one that cannot\<close>













section \<open>Properties of the IPC layer\<close>

lemmas ipc_ex_defs = C0_def scripted_dsp_def ipc0_def cd_zero_def cd10_def sp10_def
  ipc0_disabled_def ipc0_pending_def dsp_power_fails_def answering_dsp_def

lemmas ipc_run_defs = sof_ipc_set_get_large_ctrl_data_def sof_get_ctrl_copy_params_def
  DIV_ROUND_UP_def large_ctrl_loop.simps large_ctrl_round_def sof_ipc_tx_message_unlocked_def
  sof_ipc_tx_message_no_pm_def sof_ipc_tx_message_def snd_sof_ipc_free_def
  tx_wait_done_def wait_event_timeout_def snd_sof_ipc_reply_def memcpy_def Let_def

subsection \<open>Chunked transfer of large control data\<close>



text \<open>
  Claim C4. For a transfer in the set direction that succeeds (the result is not
  negative), from a source area that holds at least \<open>S = msg_bytes\<close> bytes, the
  payloads of the messages handed to the transport, concatenated in the order sent,
  are the first \<open>S\<close> bytes of the caller's source area; the messages carry the
  indices 0, 1, 2, ... in that order, and the caller's message is left as it was.
\<close>

theorem large_ctrl_set_payload:
  assumes run: "sof_ipc_set_get_large_ctrl_data C ops True ipc cd sp True =
                  Some (err, cd', sp', ipc')"
      and ok: "0 \<le> err"
      and len: "msg_bytes sp \<le> length (elems cd)"
  shows "\<exists>evs. events ipc' = events ipc @ evs \<and>
           concat (map (chunk_payload (hdr_bytes sp)) (sent_msgs evs)) =
             take (msg_bytes sp) (elems cd) \<and>
           map (\<lambda>m. msg_index (msg_data m)) (sent_msgs evs) = [0 ..< length (sent_msgs evs)] \<and>
           cd' = cd"
proof -
  let ?Cap = "SOF_IPC_MSG_MAX_SIZE C - hdr_bytes sp"
  let ?S = "msg_bytes sp"
  have abi: "SOF_ABI_VER_3_3_0 C \<le> abi_version ipc"
    using run ok by (auto simp: sof_ipc_set_get_large_ctrl_data_def EINVAL_def split: if_splits)
  have ty: "\<forall>n. ctrl_type cd \<noteq> SOF_CTRL_TYPE_other n"
    using run ok abi
    by (auto simp: sof_ipc_set_get_large_ctrl_data_def sof_get_ctrl_copy_params_def EINVAL_def)
  have hdr: "hdr_bytes sp < SOF_IPC_MSG_MAX_SIZE C"
    using run abi ty
    by (cases "ctrl_type cd")
       (auto simp: sof_ipc_set_get_large_ctrl_data_def sof_get_ctrl_copy_params_def
             split: if_splits)
  from sof_ipc_set_get_large_ctrl_data_run[OF abi ty hdr, of ops True] run
  obtain st' pd where
    sp': "sp' = sp\<lparr>pl_size := ?Cap, num_msg := DIV_ROUND_UP ?S ?Cap\<rparr>"
    and loop: "large_ctrl_loop ops sp' True 0 ?S 0 0
                 \<lparr>cdata = cd, partdata = pd, ipc_obj = ipc\<rparr> = (err, st')"
    and res: "cd' = cdata st'" "ipc' = ipc_obj st'"
    by auto
  from hdr have pos: "0 < pl_size sp'" by (simp add: sp')
  have nm: "num_msg sp' = DIV_ROUND_UP ?S (pl_size sp')" by (simp add: sp')
  have hb: "hdr_bytes sp' = hdr_bytes sp" by (simp add: sp')
  from large_ctrl_loop_sent0[OF loop pos nm] obtain evs k where
    L0: "events (ipc_obj st') = events (ipc_obj \<lparr>cdata = cd, partdata = pd, ipc_obj = ipc\<rparr>) @ evs"
       "map chunk_fields (sent_msgs evs) =
          map (\<lambda>j. (min (pl_size sp') (?S - j * pl_size sp'), j,
                     ?S - j * pl_size sp' - min (pl_size sp') (?S - j * pl_size sp'))) [0 ..< k]"
       "0 \<le> err \<longrightarrow> k = num_msg sp'"
       "True \<longrightarrow> ?S \<le> length (elems (cdata \<lparr>cdata = cd, partdata = pd, ipc_obj = ipc\<rparr>)) \<longrightarrow>
              cdata st' = cdata \<lparr>cdata = cd, partdata = pd, ipc_obj = ipc\<rparr> \<and>
              concat (map (chunk_payload (hdr_bytes sp')) (sent_msgs evs)) =
                take (min ?S (k * pl_size sp'))
                  (elems (cdata \<lparr>cdata = cd, partdata = pd, ipc_obj = ipc\<rparr>))"
    by (elim exE conjE) simp
  from L0 len ok have
    L: "events (ipc_obj st') = events ipc @ evs"
       "map chunk_fields (sent_msgs evs) =
          map (\<lambda>j. (min (pl_size sp') (?S - j * pl_size sp'), j,
                     ?S - j * pl_size sp' - min (pl_size sp') (?S - j * pl_size sp'))) [0 ..< k]"
       "k = num_msg sp'"
       "cdata st' = cd"
       "concat (map (chunk_payload (hdr_bytes sp')) (sent_msgs evs)) =
          take (min ?S (k * pl_size sp')) (elems cd)"
    by simp_all
  note k = L(3)
  have "\<not> k < DIV_ROUND_UP ?S (pl_size sp')" using k nm by simp
  then have "?S \<le> k * pl_size sp'" using DIV_ROUND_UP_less[OF pos, of k ?S] by simp
  with L(5) hb have pay: "concat (map (chunk_payload (hdr_bytes sp)) (sent_msgs evs)) =
                            take ?S (elems cd)" by (simp add: min_def)
  have "map (\<lambda>m. msg_index (msg_data m)) (sent_msgs evs) =
        map (\<lambda>t. fst (snd t)) (map chunk_fields (sent_msgs evs))"
    by (simp add: chunk_fields_def)
  also have "\<dots> = [0 ..< k]" unfolding L(2) by (simp add: map_idI)
  finally have idx: "map (\<lambda>m. msg_index (msg_data m)) (sent_msgs evs) = [0 ..< k]" .
  then have "length (sent_msgs evs) = k" by (metis length_map length_upt diff_zero)
  with idx have idx': "map (\<lambda>m. msg_index (msg_data m)) (sent_msgs evs) =
                        [0 ..< length (sent_msgs evs)]" by simp
  from L(1) res L(4) pay idx' show ?thesis by (intro exI[of _ evs]) simp
qed

text \<open>
  Claim C4 on the example transfer: the payloads are bytes 1 to 4, 5 to 8 and 9 to 10.
\<close>

theorem large_ctrl_set_payload_witness:
  "fst (the (sof_ipc_set_get_large_ctrl_data C0 (scripted_dsp 99) True ipc0 cd10 sp10 True)) = 0 \<and>
   msg_bytes sp10 \<le> length (elems cd10) \<and>
   (\<exists>evs. events (snd (snd (snd (the
             (sof_ipc_set_get_large_ctrl_data C0 (scripted_dsp 99) True ipc0 cd10 sp10 True))))) =
             events ipc0 @ evs \<and>
          concat (map (chunk_payload (hdr_bytes sp10)) (sent_msgs evs)) =
            take (msg_bytes sp10) (elems cd10) \<and>
          map (\<lambda>m. msg_index (msg_data m)) (sent_msgs evs) = [0 ..< length (sent_msgs evs)]) \<and>
   map (chunk_payload 380) (sent_msgs (events (snd (snd (snd (the
     (sof_ipc_set_get_large_ctrl_data C0 (scripted_dsp 99) True ipc0 cd10 sp10 True))))))) =
   [[1, 2, 3, 4], [5, 6, 7, 8], [9, 10]]"
proof -
  let ?run = "sof_ipc_set_get_large_ctrl_data C0 (scripted_dsp 99) True ipc0 cd10 sp10 True"
  have some: "?run \<noteq> None" by (simp add: ipc_ex_defs ipc_run_defs)
  have r0: "fst (the ?run) = 0" by (simp add: ipc_ex_defs ipc_run_defs)
  from some r0 have run: "?run = Some (0, fst (snd (the ?run)), fst (snd (snd (the ?run))),
                                     snd (snd (snd (the ?run))))"
    by (cases ?run) (auto simp: prod_eq_iff)
  have len: "msg_bytes sp10 \<le> length (elems cd10)" by (simp add: sp10_def cd10_def)
  have t3: "map (chunk_payload 380) (sent_msgs (events (snd (snd (snd (the ?run)))))) =
            [[1, 2, 3, 4], [5, 6, 7, 8], [9, 10]]"
    by (simp add: ipc_ex_defs ipc_run_defs chunk_payload_def)
  have z: "(0::int) \<le> 0" by simp
  from large_ctrl_set_payload[OF run z len]
  have ex: "\<exists>evs. events (snd (snd (snd (the ?run)))) = events ipc0 @ evs \<and>
          concat (map (chunk_payload (hdr_bytes sp10)) (sent_msgs evs)) =
            take (msg_bytes sp10) (elems cd10) \<and>
          map (\<lambda>m. msg_index (msg_data m)) (sent_msgs evs) = [0 ..< length (sent_msgs evs)]"
    by (elim exE conjE) (intro exI conjI; simp)
  show ?thesis by (intro conjI r0 len ex t3)
qed

subsection \<open>The disabled channel\<close>

text \<open>
  Claim C5, as the code has it. On a channel whose \<open>disable_ipc_tx\<close> flag is set:
  \<open>sof_ipc_tx_message_unlocked\<close> returns \<open>-ENODEV\<close> and leaves the IPC object, the
  platform and the caller's reply buffer as they were; \<open>sof_ipc_tx_message_no_pm\<close>
  returns \<open>-ENOBUFS\<close> when a size exceeds the maximum and \<open>-ENODEV\<close> otherwise,
  again with nothing changed; \<open>sof_ipc_tx_message\<close> first requests the D0 power
  state, returns the error of that request when it fails, and otherwise \<open>-ENOBUFS\<close>
  for an oversized message and \<open>-ENODEV\<close> for any other, the power-state request
  being its only interaction with the platform. None of the three hands a message to
  the transport. The flag stays set after a send, after a reply and after another
  \<open>snd_sof_ipc_free\<close>, and a large control transfer leaves the IPC object
  untouched.
\<close>

theorem disabled_channel_sends_nothing:
  assumes "disable_ipc_tx ipc"
  shows "sof_ipc_tx_message_unlocked ops ipc h d n rb rn = (- ENODEV, rb, ipc) \<and>
         sof_ipc_tx_message_no_pm C ops ipc h d n rb rn =
           (if n > SOF_IPC_MSG_MAX_SIZE C \<or> rn > SOF_IPC_MSG_MAX_SIZE C then - ENOBUFS
            else - ENODEV, rb, ipc) \<and>
         sof_ipc_tx_message C ops ipc h d n rb rn =
           (if fst (snd_sof_dsp_set_power_state ops (platform ipc)) < 0
            then fst (snd_sof_dsp_set_power_state ops (platform ipc))
            else if n > SOF_IPC_MSG_MAX_SIZE C \<or> rn > SOF_IPC_MSG_MAX_SIZE C then - ENOBUFS
            else - ENODEV,
            rb,
            ipc\<lparr>platform := snd (snd_sof_dsp_set_power_state ops (platform ipc)),
                events := events ipc @
                  [Ev_set_power_state (fst (snd_sof_dsp_set_power_state ops (platform ipc)))]\<rparr>) \<and>
         sent_msgs (events (snd (snd (sof_ipc_tx_message C ops ipc h d n rb rn)))) =
           sent_msgs (events ipc) \<and>
         disable_ipc_tx (snd (snd (sof_ipc_tx_message C ops ipc h d n rb rn))) \<and>
         disable_ipc_tx (snd (snd_sof_ipc_reply ipc msg_id)) \<and>
         snd_sof_ipc_free (Some ipc) = Some ipc \<and>
         (\<forall>res. sof_ipc_set_get_large_ctrl_data C ops ok ipc cd sp send = Some res \<longrightarrow>
                snd (snd (snd res)) = ipc)"
proof -
  note u = sof_ipc_tx_message_unlocked_disabled
  have sent_app: "sent_msgs (evs @ [Ev_set_power_state r]) = sent_msgs evs" for evs r
    by (induction evs rule: sent_msgs.induct) auto
  have 1: "sof_ipc_tx_message_unlocked ops ipc h d n rb rn = (- ENODEV, rb, ipc)"
    using assms by (rule u)
  have 2: "sof_ipc_tx_message_no_pm C ops ipc h d n rb rn =
             (if n > SOF_IPC_MSG_MAX_SIZE C \<or> rn > SOF_IPC_MSG_MAX_SIZE C then - ENOBUFS
              else - ENODEV, rb, ipc)"
    using assms by (simp add: sof_ipc_tx_message_no_pm_def u)
  obtain ret p where pw: "snd_sof_dsp_set_power_state ops (platform ipc) = (ret, p)" by force
  let ?ipc1 = "ipc\<lparr>platform := p, events := events ipc @ [Ev_set_power_state ret]\<rparr>"
  have d1: "disable_ipc_tx ?ipc1" using assms by simp
  have 3: "sof_ipc_tx_message C ops ipc h d n rb rn =
             (if ret < 0 then ret
              else if n > SOF_IPC_MSG_MAX_SIZE C \<or> rn > SOF_IPC_MSG_MAX_SIZE C then - ENOBUFS
              else - ENODEV, rb, ?ipc1)"
    using pw by (simp add: sof_ipc_tx_message_def Let_def sof_ipc_tx_message_no_pm_def u[OF d1])
  have 4: "snd_sof_ipc_free (Some ipc) = Some ipc"
    using assms by (simp add: snd_sof_ipc_free_def)
  have 5: "snd (snd (snd res)) = ipc"
    if res: "sof_ipc_set_get_large_ctrl_data C ops ok ipc cd sp send = Some res" for res
  proof -
    have "ipc_obj st' = ipc"
      if "large_ctrl_loop ops sp' send 0 rem 0 e \<lparr>cdata = cd, partdata = pd, ipc_obj = ipc\<rparr> =
            (e', st')" for sp' rem e pd e' st'
      using large_ctrl_loop_disabled
              [of "\<lparr>cdata = cd, partdata = pd, ipc_obj = ipc\<rparr>" ops sp' send 0 rem 0 e]
            assms that by simp
    with res show ?thesis
      by (auto simp: sof_ipc_set_get_large_ctrl_data_def Let_def
               split: if_splits option.splits prod.splits)
  qed
  show ?thesis
    using 1 2 3 4 5 assms pw by (simp add: snd_sof_ipc_reply_flag sent_app)
qed

text \<open>
  Claim C5 on the example channel: \<open>snd_sof_ipc_free\<close> sets the flag, and the sends
  after it return \<open>-ENODEV\<close> without a write.
\<close>

theorem disabled_channel_sends_nothing_witness:
  "snd_sof_ipc_free (Some ipc0) = Some ipc0_disabled \<and> disable_ipc_tx ipc0_disabled \<and>
   sof_ipc_tx_message_unlocked (scripted_dsp 99) ipc0_disabled 7 cd10 12 cd_zero 12 =
     (- ENODEV, cd_zero, ipc0_disabled) \<and>
   sof_ipc_tx_message_no_pm C0 (scripted_dsp 99) ipc0_disabled 7 cd10 12 cd_zero 12 =
     (- ENODEV, cd_zero, ipc0_disabled) \<and>
   sof_ipc_tx_message C0 (scripted_dsp 99) ipc0_disabled 7 cd10 12 cd_zero 12 =
     (- ENODEV, cd_zero, ipc0_disabled\<lparr>events := [Ev_set_power_state 0]\<rparr>) \<and>
   snd_sof_ipc_free (Some ipc0_disabled) = Some ipc0_disabled"
proof -
  have d: "disable_ipc_tx ipc0_disabled" by (simp add: ipc0_disabled_def)
  have f: "snd_sof_ipc_free (Some ipc0) = Some ipc0_disabled"
    by (simp add: snd_sof_ipc_free_def ipc0_disabled_def)
  have e: "events ipc0_disabled = []" "platform ipc0_disabled = 0"
    by (simp_all add: ipc0_disabled_def ipc0_def)
  have m: "(12::nat) \<le> SOF_IPC_MSG_MAX_SIZE C0" by (simp add: C0_def)
  have p: "snd_sof_dsp_set_power_state (scripted_dsp 99) 0 = (0, 0)"
    by (simp add: scripted_dsp_def)
  have pl: "ipc0_disabled\<lparr>platform := 0, events := [Ev_set_power_state 0]\<rparr> =
            ipc0_disabled\<lparr>events := [Ev_set_power_state 0]\<rparr>"
    by (simp add: ipc0_disabled_def ipc0_def)
  from disabled_channel_sends_nothing[OF d, where ops = "scripted_dsp 99" and h = 7 and d = cd10
      and n = 12 and rb = cd_zero and rn = 12 and C = C0 and msg_id = 7
      and ok = True and cd = cd10 and sp = sp10 and send = True]
  show ?thesis using d f e m p pl by simp
qed

text \<open>
  A send on the disabled example channel that does not return \<open>-ENODEV\<close>: through
  \<open>sof_ipc_tx_message\<close> on a platform whose power-state request fails, the result is
  the code \<open>-16\<close> of that request, made before the flag is looked at; and an
  oversized message through \<open>sof_ipc_tx_message_no_pm\<close> gets \<open>-ENOBUFS\<close>.
\<close>

theorem disabled_send_other_error_counterexample:
  "disable_ipc_tx ipc0_disabled \<and>
   fst (sof_ipc_tx_message C0 dsp_power_fails ipc0_disabled 7 cd10 12 cd_zero 12) = - 16 \<and>
   events (snd (snd (sof_ipc_tx_message C0 dsp_power_fails ipc0_disabled 7 cd10 12 cd_zero 12))) =
     [Ev_set_power_state (- 16)] \<and>
   fst (sof_ipc_tx_message_no_pm C0 (scripted_dsp 99) ipc0_disabled 7 cd10 385 cd_zero 12) =
     - ENOBUFS \<and>
   - 16 \<noteq> - ENODEV \<and> - ENOBUFS \<noteq> - ENODEV"
  by (simp add: ipc_ex_defs ipc_run_defs ENOBUFS_def ENODEV_def)

subsection \<open>Timeout\<close>

text \<open>
  Claim C6. When the bounded wait ends without a completion, \<open>tx_wait_done\<close> calls
  the firmware-exception handler and returns \<open>-ETIMEDOUT\<close>, with the pending message
  and the caller's reply buffer unchanged. For a whole send on an enabled channel,
  where the transport accepts the message and no reply arrives: the result is
  \<open>-ETIMEDOUT\<close> and the events of the call are the one hand-over of the message
  followed by the firmware exception, so the message is not sent again.
\<close>

theorem send_timeout_fw_exception_no_retry:
  "(wait_event_timeout ops ipc = (0, ipc1) \<longrightarrow>
      tx_wait_done ops ipc rb =
        (- ETIMEDOUT, rb,
         ipc1\<lparr>platform := snd_sof_handle_fw_exception ops (platform ipc1),
              events := events ipc @ [Ev_fw_exception]\<rparr>) \<and>
      msg ipc1 = msg ipc) \<and>
   (\<not> disable_ipc_tx ipc \<and>
    snd_sof_dsp_send_msg ops (platform ipc)
      ((msg ipc)\<lparr>msg_header := h, msg_size := n, reply_size := rn, reply_error := 0,
                 msg_data := (if n \<noteq> 0 then d else msg_data (msg ipc))\<rparr>) = (0, p1) \<and>
    irq_reply ops p1 = (None, p2) \<longrightarrow>
      sof_ipc_tx_message_unlocked ops ipc h d n rb rn =
        (- ETIMEDOUT, rb,
         ipc\<lparr>msg := (msg ipc)\<lparr>msg_header := h, msg_size := n, reply_size := rn,
                             reply_error := 0,
                             msg_data := (if n \<noteq> 0 then d else msg_data (msg ipc)),
                             ipc_complete := False\<rparr>,
             platform := snd_sof_handle_fw_exception ops p2,
             events := events ipc @
               [Ev_send_msg
                  ((msg ipc)\<lparr>msg_header := h, msg_size := n, reply_size := rn, reply_error := 0,
                             msg_data := (if n \<noteq> 0 then d else msg_data (msg ipc))\<rparr>) 0,
                Ev_fw_exception]\<rparr>))"
proof (intro conjI impI)
  assume w: "wait_event_timeout ops ipc = (0, ipc1)"
  from wait_event_timeout_timed_out[OF w]
  have ipc1: "ipc1 = ipc\<lparr>platform := snd (irq_reply ops (platform ipc))\<rparr>" by simp
  then show "msg ipc1 = msg ipc" by simp
  from w ipc1 show "tx_wait_done ops ipc rb =
        (- ETIMEDOUT, rb,
         ipc1\<lparr>platform := snd_sof_handle_fw_exception ops (platform ipc1),
              events := events ipc @ [Ev_fw_exception]\<rparr>)"
    by (simp add: tx_wait_done_def)
next
  let ?m = "(msg ipc)\<lparr>msg_header := h, msg_size := n, reply_size := rn, reply_error := 0,
                 msg_data := (if n \<noteq> 0 then d else msg_data (msg ipc))\<rparr>"
  assume a: "\<not> disable_ipc_tx ipc \<and> snd_sof_dsp_send_msg ops (platform ipc) ?m = (0, p1) \<and>
             irq_reply ops p1 = (None, p2)"
  then show "sof_ipc_tx_message_unlocked ops ipc h d n rb rn =
        (- ETIMEDOUT, rb,
         ipc\<lparr>msg := (msg ipc)\<lparr>msg_header := h, msg_size := n, reply_size := rn,
                             reply_error := 0,
                             msg_data := (if n \<noteq> 0 then d else msg_data (msg ipc)),
                             ipc_complete := False\<rparr>,
             platform := snd_sof_handle_fw_exception ops p2,
             events := events ipc @ [Ev_send_msg ?m 0, Ev_fw_exception]\<rparr>)"
    by (simp add: sof_ipc_tx_message_unlocked_def tx_wait_done_def wait_event_timeout_def Let_def)
qed

text \<open>
  Claim C6 on the example channel, with a platform that never answers the first
  message.
\<close>

theorem send_timeout_fw_exception_no_retry_witness:
  "sof_ipc_tx_message_unlocked (scripted_dsp 1) ipc0 7 cd10 12 cd_zero 12 =
     (- ETIMEDOUT, cd_zero,
      ipc0\<lparr>msg := (msg ipc0)\<lparr>msg_header := 7, msg_size := 12, reply_size := 12,
                              reply_error := 0, msg_data := cd10, ipc_complete := False\<rparr>,
           platform := 1,
           events := [Ev_send_msg ((msg ipc0)\<lparr>msg_header := 7, msg_size := 12, reply_size := 12,
                                             reply_error := 0, msg_data := cd10\<rparr>) 0,
                      Ev_fw_exception]\<rparr>)"
proof -
  have a: "\<not> disable_ipc_tx ipc0" by (simp add: ipc0_def)
  have b: "snd_sof_dsp_send_msg (scripted_dsp 1) (platform ipc0)
             ((msg ipc0)\<lparr>msg_header := 7, msg_size := 12, reply_size := 12, reply_error := 0,
                        msg_data := (if (12::nat) \<noteq> 0 then cd10 else msg_data (msg ipc0))\<rparr>) =
           (0, 1)"
    by (simp add: scripted_dsp_def ipc0_def)
  have c: "irq_reply (scripted_dsp 1) 1 = (None, 1)" by (simp add: scripted_dsp_def)
  have e: "events ipc0 = []" "snd_sof_handle_fw_exception (scripted_dsp 1) 1 = 1"
    by (simp_all add: ipc0_def scripted_dsp_def)
  from send_timeout_fw_exception_no_retry[where ops = "scripted_dsp 1" and ipc = ipc0 and h = 7
      and d = cd10 and n = 12 and rb = cd_zero and rn = 12 and ?p1.0 = 1 and ?p2.0 = 1]
    a b c e
  show ?thesis by simp
qed

subsection \<open>Oversized messages\<close>

text \<open>
  Claim C8, as the code has it. When the payload size or the expected reply size
  exceeds the maximum message size, \<open>sof_ipc_tx_message_no_pm\<close> returns \<open>-ENOBUFS\<close>
  and touches nothing. \<open>sof_ipc_tx_message\<close> first asks the platform for the D0 power
  state: when that request fails its error is returned, otherwise the result is
  \<open>-ENOBUFS\<close>; in both cases the power-state request is the only interaction with
  the device and no message is handed to the transport.
\<close>

theorem oversized_send_ENOBUFS:
  assumes "n > SOF_IPC_MSG_MAX_SIZE C \<or> rn > SOF_IPC_MSG_MAX_SIZE C"
  shows "sof_ipc_tx_message_no_pm C ops ipc h d n rb rn = (- ENOBUFS, rb, ipc) \<and>
         sof_ipc_tx_message C ops ipc h d n rb rn =
           (if fst (snd_sof_dsp_set_power_state ops (platform ipc)) < 0
            then fst (snd_sof_dsp_set_power_state ops (platform ipc)) else - ENOBUFS,
            rb,
            ipc\<lparr>platform := snd (snd_sof_dsp_set_power_state ops (platform ipc)),
                events := events ipc @
                  [Ev_set_power_state (fst (snd_sof_dsp_set_power_state ops (platform ipc)))]\<rparr>)"
  using assms
  by (auto simp: sof_ipc_tx_message_no_pm_def sof_ipc_tx_message_def Let_def split: prod.splits)

text \<open>
  Claim C8 as amended, on the example channel with a payload of 385 bytes against a
  maximum of 384.
\<close>

theorem oversized_send_ENOBUFS_witness:
  "(385::nat) > SOF_IPC_MSG_MAX_SIZE C0 \<and>
   sof_ipc_tx_message_no_pm C0 (scripted_dsp 99) ipc0 7 cd10 385 cd_zero 12 =
     (- ENOBUFS, cd_zero, ipc0) \<and>
   sof_ipc_tx_message C0 (scripted_dsp 99) ipc0 7 cd10 385 cd_zero 12 =
     (- ENOBUFS, cd_zero, ipc0\<lparr>platform := 0, events := [Ev_set_power_state 0]\<rparr>)"
proof -
  have a: "(385::nat) > SOF_IPC_MSG_MAX_SIZE C0 \<or> (12::nat) > SOF_IPC_MSG_MAX_SIZE C0"
    by (simp add: C0_def)
  have p: "snd_sof_dsp_set_power_state (scripted_dsp 99) (platform ipc0) = (0, 0)"
    by (simp add: scripted_dsp_def ipc0_def)
  have e: "events ipc0 = []" by (simp add: ipc0_def)
  from oversized_send_ENOBUFS[OF a, where ops = "scripted_dsp 99" and ipc = ipc0 and h = 7
      and d = cd10 and rb = cd_zero] p e
  show ?thesis by (simp add: C0_def)
qed

text \<open>
  Claim C8 as stated (\<open>-ENOBUFS\<close> before any power-state change) fails for
  \<open>sof_ipc_tx_message\<close>: with a payload of 385 bytes the power-state request is made
  before the size is checked, and on a platform where that request fails with
  \<open>-16\<close> the call returns \<open>-16\<close>, not \<open>-ENOBUFS\<close>.
\<close>

theorem oversized_send_before_power_counterexample:
  "SOF_IPC_MSG_MAX_SIZE C0 < 385 \<and> events ipc0 = [] \<and>
   events (snd (snd (sof_ipc_tx_message C0 (scripted_dsp 99) ipc0 7 cd10 385 cd_zero 12))) =
     [Ev_set_power_state 0] \<and>
   fst (sof_ipc_tx_message C0 dsp_power_fails ipc0 7 cd10 385 cd_zero 12) = - 16 \<and>
   - 16 \<noteq> - ENOBUFS"
  by (simp add: ipc_ex_defs sof_ipc_tx_message_def sof_ipc_tx_message_no_pm_def ENOBUFS_def)

subsection \<open>Replies\<close>

text \<open>
  Claim C10. When no command is pending (the completion flag is already set),
  \<open>snd_sof_ipc_reply\<close> returns \<open>-EINVAL\<close> and leaves the state as it was: the pending
  message is not modified and nobody is woken. Otherwise it returns 0, sets the
  completion flag and wakes the waiter; a sender waiting in \<open>wait_event_timeout\<close>
  when such a reply arrives then sees a positive result and the reply's error code.
\<close>

theorem snd_sof_ipc_reply_pending_or_not:
  "(ipc_complete (msg ipc) \<longrightarrow> snd_sof_ipc_reply ipc msg_id = (- EINVAL, ipc)) \<and>
   (\<not> ipc_complete (msg ipc) \<longrightarrow>
      snd_sof_ipc_reply ipc msg_id =
        (0, ipc\<lparr>msg := (msg ipc)\<lparr>ipc_complete := True\<rparr>,
                events := events ipc @ [Ev_wake_up]\<rparr>) \<and>
      (\<forall>error data p. irq_reply ops (platform ipc) = (Some (error, data), p) \<longrightarrow>
         0 < fst (wait_event_timeout ops ipc) \<and>
         reply_error (msg (snd (wait_event_timeout ops ipc))) = error \<and>
         events (snd (wait_event_timeout ops ipc)) = events ipc @ [Ev_wake_up]))"
  by (auto simp: snd_sof_ipc_reply_def wait_event_timeout_def)

text \<open>
  Claim C10 on the example channel, first with no command pending, then with one.
\<close>

theorem snd_sof_ipc_reply_pending_or_not_witness:
  "snd_sof_ipc_reply ipc0 7 = (- EINVAL, ipc0) \<and>
   snd_sof_ipc_reply ipc0_pending 7 = (0, ipc0\<lparr>events := [Ev_wake_up]\<rparr>) \<and>
   fst (wait_event_timeout (scripted_dsp 99) ipc0_pending) = 1"
proof -
  have a: "ipc_complete (msg ipc0)" "\<not> ipc_complete (msg ipc0_pending)"
    by (simp_all add: ipc0_def ipc0_pending_def)
  have r: "irq_reply (scripted_dsp 99) (platform ipc0_pending) = (Some (0, cd_zero), 0)"
    by (simp add: scripted_dsp_def ipc0_pending_def ipc0_def)
  from snd_sof_ipc_reply_pending_or_not[of ipc0 7 "scripted_dsp 99"]
       snd_sof_ipc_reply_pending_or_not[of ipc0_pending 7 "scripted_dsp 99"] a r
  show ?thesis
    by (simp add: ipc_ex_defs wait_event_timeout_def snd_sof_ipc_reply_def)
qed

end
